theory Spec2Isabelle
  imports Main "HOL-Library.AList"
begin

section \<open>JavaScript containers\<close>

text \<open>
  A JavaScript \<open>Set<T>\<close> iterates in insertion order and holds no element twice: it is
  modelled by the list of its elements in insertion order. \<open>add\<close> appends an element that
  is not there yet, \<open>delete\<close> removes it, \<open>size\<close> is the length.
\<close>

definition Set_add :: "'a \<Rightarrow> 'a list \<Rightarrow> 'a list" where
  "Set_add x xs = (if x \<in> set xs then xs else xs @ [x])"

definition Set_delete :: "'a \<Rightarrow> 'a list \<Rightarrow> 'a list" where
  "Set_delete x xs = removeAll x xs"

definition new_Set :: "'a list \<Rightarrow> 'a list" where
  "new_Set xs = fold Set_add xs []"

text \<open>
  A JavaScript \<open>Map<K, V>\<close> is the association list of its entries in insertion order:
  \<open>get\<close> is \<^const>\<open>map_of\<close>, \<open>set\<close> is \<^const>\<open>AList.update\<close> (replaces in place, appends a
  new key), \<open>delete\<close> is \<^const>\<open>AList.delete\<close>. A mutation of the object stored under a key
  is \<^const>\<open>AList.map_entry\<close>, which changes nothing when the key is absent.
\<close>

abbreviation Map_get :: "('k \<times> 'v) list \<Rightarrow> 'k \<Rightarrow> 'v option" where
  "Map_get m k \<equiv> map_of m k"

abbreviation Map_has :: "('k \<times> 'v) list \<Rightarrow> 'k \<Rightarrow> bool" where
  "Map_has m k \<equiv> map_of m k \<noteq> None"

abbreviation Map_set :: "'k \<Rightarrow> 'v \<Rightarrow> ('k \<times> 'v) list \<Rightarrow> ('k \<times> 'v) list" where
  "Map_set k v m \<equiv> AList.update k v m"

abbreviation Map_delete :: "'k \<Rightarrow> ('k \<times> 'v) list \<Rightarrow> ('k \<times> 'v) list" where
  "Map_delete k m \<equiv> AList.delete k m"

section \<open>JSON values\<close>

text \<open>
  What \<open>JSON.parse\<close> and \<open>request.json()\<close> return, and \<open>undefined\<close>, the value of a
  property that is absent. Numbers are the integer-valued ones (the identifiers and
  counters that the callers of this subsystem send); an object is the list of its
  properties.
\<close>

datatype json =
    JUndefined
  | JNull
  | JBool bool
  | JNum int
  | JStr string
  | JArr "json list"
  | JObj "(string \<times> json) list"

text \<open>JavaScript truthiness of a JSON value, as \<open>!x\<close> tests it.\<close>

fun falsy :: "json \<Rightarrow> bool" where
  "falsy JUndefined = True"
| "falsy JNull = True"
| "falsy (JBool b) = (\<not> b)"
| "falsy (JNum n) = (n = 0)"
| "falsy (JStr s) = (s = [])"
| "falsy (JArr xs) = False"
| "falsy (JObj ps) = False"

text \<open>
  \<open>String(x)\<close>: a string is itself, an integer (below \<open>10^21\<close> in magnitude) its decimal
  digits, an array its elements joined by commas with \<open>null\<close> and \<open>undefined\<close> as the
  empty string.
\<close>

definition digit :: "nat \<Rightarrow> char" where
  "digit n = ''0123456789'' ! (n mod 10)"

fun digits :: "nat \<Rightarrow> string" where
  "digits n = (if n < 10 then [digit n] else digits (n div 10) @ [digit (n mod 10)])"

declare digits.simps [simp del]

fun join_comma :: "string list \<Rightarrow> string" where
  "join_comma [] = []"
| "join_comma [s] = s"
| "join_comma (s # t # ts) = s @ '','' @ join_comma (t # ts)"

fun String :: "json \<Rightarrow> string" where
  "String (JStr s) = s"
| "String (JNum n) = (if n < 0 then CHR ''-'' # digits (nat (- n)) else digits (nat n))"
| "String JUndefined = ''undefined''"
| "String JNull = ''null''"
| "String (JBool b) = (if b then ''true'' else ''false'')"
| "String (JArr xs) = join_comma (map (\<lambda>x. if x = JNull \<or> x = JUndefined then [] else String x) xs)"
| "String (JObj ps) = ''[object Object]''"

text \<open>Property access \<open>x.k\<close> on an object.\<close>

fun get_prop :: "json \<Rightarrow> string \<Rightarrow> json" where
  "get_prop (JObj ps) k = (case map_of ps k of None \<Rightarrow> JUndefined | Some x \<Rightarrow> x)"
| "get_prop v k = JUndefined"

section \<open>Validation schemas\<close>

text \<open>
  The schema combinators of the validation library that the source uses. Parsing returns
  the validated value, \<open>None\<close> when the library throws its validation error. An object
  schema keeps only the keys of its shape; a union returns the result of its first
  option that accepts the value; a key that is absent is parsed as \<open>undefined\<close>, which an
  optional schema accepts, and is left out of the result. No JSON value is a \<open>Date\<close>.
\<close>

datatype schema =
    ZString
  | ZNumber
  | ZBoolean
  | ZDate
  | ZUnknown
  | ZEnum "string list"
  | ZNullable schema
  | ZOptional schema
  | ZArray schema
  | ZUnion "schema list"
  | ZObject "(string \<times> schema) list"
  | ZRecord schema

fun parse_each :: "(json \<Rightarrow> json option) \<Rightarrow> json list \<Rightarrow> json list option" where
  "parse_each p [] = Some []"
| "parse_each p (x # xs) =
     (case p x of None \<Rightarrow> None | Some y \<Rightarrow> map_option ((#) y) (parse_each p xs))"

fun parse_first :: "(json \<Rightarrow> json option) list \<Rightarrow> json \<Rightarrow> json option" where
  "parse_first [] v = None"
| "parse_first (p # ps) v = (case p v of Some y \<Rightarrow> Some y | None \<Rightarrow> parse_first ps v)"

fun parse_shape ::
  "(string \<times> (json \<Rightarrow> json option)) list \<Rightarrow> (string \<times> json) list \<Rightarrow> (string \<times> json) list option" where
  "parse_shape [] ps = Some []"
| "parse_shape ((k, p) # shape) ps =
     (case p (case map_of ps k of None \<Rightarrow> JUndefined | Some x \<Rightarrow> x) of
        None \<Rightarrow> None
      | Some y \<Rightarrow>
          (if y = JUndefined \<and> map_of ps k = None then parse_shape shape ps
           else map_option ((#) (k, y)) (parse_shape shape ps)))"

fun parse_values :: "(json \<Rightarrow> json option) \<Rightarrow> (string \<times> json) list \<Rightarrow> (string \<times> json) list option" where
  "parse_values p [] = Some []"
| "parse_values p ((k, x) # ps) =
     (case p x of None \<Rightarrow> None | Some y \<Rightarrow> map_option ((#) (k, y)) (parse_values p ps))"

primrec parse :: "schema \<Rightarrow> json \<Rightarrow> json option" where
  "parse ZString v = (case v of JStr s \<Rightarrow> Some v | _ \<Rightarrow> None)"
| "parse ZNumber v = (case v of JNum n \<Rightarrow> Some v | _ \<Rightarrow> None)"
| "parse ZBoolean v = (case v of JBool b \<Rightarrow> Some v | _ \<Rightarrow> None)"
| "parse ZDate v = None"
| "parse ZUnknown v = Some v"
| "parse (ZEnum vs) v = (case v of JStr s \<Rightarrow> if s \<in> set vs then Some v else None | _ \<Rightarrow> None)"
| "parse (ZNullable s) v = (if v = JNull then Some JNull else parse s v)"
| "parse (ZOptional s) v = (if v = JUndefined then Some JUndefined else parse s v)"
| "parse (ZArray s) v = (case v of JArr xs \<Rightarrow> map_option JArr (parse_each (parse s) xs) | _ \<Rightarrow> None)"
| "parse (ZUnion ss) v = parse_first (map parse ss) v"
| "parse (ZObject shape) v =
     (case v of
        JObj ps \<Rightarrow> map_option JObj (parse_shape (map (map_prod (\<lambda>k. k) parse) shape) ps)
      | _ \<Rightarrow> None)"
| "parse (ZRecord s) v = (case v of JObj ps \<Rightarrow> map_option JObj (parse_values (parse s) ps) | _ \<Rightarrow> None)"

definition BroadcastMessageSchema :: schema where
  "BroadcastMessageSchema =
     ZObject
      [(''type'', ZString),
       (''payload'', ZUnion
         [ZObject
           [(''roomId'', ZUnion [ZString, ZNumber]),
            (''message'', ZObject
              [(''id'', ZNumber),
               (''conversation_id'', ZNumber),
               (''user_id'', ZNullable ZNumber),
               (''content'', ZString),
               (''is_ai'', ZUnion [ZBoolean, ZNumber]),
               (''sender_name'', ZNullable ZString),
               (''created_at'', ZString),
               (''eligibility_status'',
                  ZEnum [''pending'', ''eligible'', ''not_eligible'', ''points_awarded'', ''expired'']),
               (''eligibility_reasons'', ZUnion [ZString, ZArray ZString]),
               (''heart_points_received'', ZNumber),
               (''heart_points_awarded_at'', ZNullable ZString),
               (''heart_points_awarded_by'', ZNullable ZNumber)])],
          ZObject
           [(''id'', ZNumber),
            (''userId'', ZNumber),
            (''type'', ZEnum [''chat_message'', ''announcement'']),
            (''title'', ZString),
            (''content'', ZString),
            (''link'', ZOptional (ZNullable ZString)),
            (''isRead'', ZBoolean),
            (''createdAt'', ZUnion [ZString, ZDate]),
            (''metadata'', ZRecord ZUnknown)],
          ZObject
           [(''notificationId'', ZNumber),
            (''chatId'', ZOptional ZNumber)],
          ZObject
           [(''chatIds'', ZArray ZNumber)]])]"

text \<open>The event tags of \<open>WS_EVENTS\<close> that the coordinator compares with.\<close>

definition NOTIFICATION_CREATED :: string where "NOTIFICATION_CREATED = ''notification:created''"
definition NOTIFICATION_DELETED :: string where "NOTIFICATION_DELETED = ''notification:deleted''"
definition NOTIFICATION_CLEARED :: string where "NOTIFICATION_CLEARED = ''notification:cleared''"
definition CHAT_MESSAGE :: string where "CHAT_MESSAGE = ''chat:message''"

section \<open>The coordinator's state\<close>

datatype ready_state = CONNECTING | OPEN | CLOSING | CLOSED

text \<open>
  A WebSocket: its \<open>readyState\<close> and the frames handed to \<open>send\<close> so far (the value given
  to \<open>JSON.stringify\<close>, oldest first).
\<close>

record WebSocket =
  readyState :: ready_state
  sent :: "json list"

record ActiveSession =
  id' :: string
  userId :: string
  userName :: "string option"
  socket :: WebSocket
  rooms :: "string list"

text \<open>
  The fields of \<open>WebSocketConnection\<close>. \<open>storage\<close> is the value under the key \<open>rooms\<close> of
  the durable object's storage (\<open>None\<close>: never written). \<open>storageFaults\<close> is the
  environment: the outcomes of the coming storage operations, \<open>True\<close> for one whose promise
  rejects; past the end of the list every operation succeeds.
\<close>

record Coordinator =
  activeConnections :: "(string \<times> ActiveSession) list"
  roomParticipants :: "(string \<times> string list) list"
  initialized :: bool
  storage :: "(string \<times> string list) list option"
  storageFaults :: "bool list"

text \<open>
  An \<open>async\<close> method either returns or throws; the state it has mutated stays mutated.
  Each call of the coordinator runs to its end before the next one starts (one frame, one
  close, one broadcast or one sweep at a time).
\<close>

datatype 'a outcome = Returned 'a | Threw

section \<open>Persistence\<close>

definition storage_put :: "(string \<times> string list) list \<Rightarrow> Coordinator \<Rightarrow> unit outcome \<times> Coordinator" where
  "storage_put v st =
     (case storageFaults st of
        [] \<Rightarrow> (Returned (), st\<lparr>storage := Some v\<rparr>)
      | f # fs \<Rightarrow>
          if f then (Threw, st\<lparr>storageFaults := fs\<rparr>)
          else (Returned (), st\<lparr>storage := Some v, storageFaults := fs\<rparr>))"

definition storage_get :: "Coordinator \<Rightarrow> (string \<times> string list) list option outcome \<times> Coordinator" where
  "storage_get st =
     (case storageFaults st of
        [] \<Rightarrow> (Returned (storage st), st)
      | f # fs \<Rightarrow>
          if f then (Threw, st\<lparr>storageFaults := fs\<rparr>)
          else (Returned (storage st), st\<lparr>storageFaults := fs\<rparr>))"

text \<open>
  \<open>saveState\<close>: the record written is the membership index, each set as the array of its
  elements. (The record is kept in the order of the map; the property order of a
  JavaScript object is not modelled.)
\<close>

definition saveState :: "Coordinator \<Rightarrow> unit outcome \<times> Coordinator" where
  "saveState st = storage_put (roomParticipants st) st"

text \<open>\<open>initialize\<close>: on the first call, every stored room replaces the entry of that room.\<close>

definition initialize :: "Coordinator \<Rightarrow> unit outcome \<times> Coordinator" where
  "initialize st =
     (if initialized st then (Returned (), st)
      else (case storage_get st of
              (Threw, st1) \<Rightarrow> (Threw, st1)
            | (Returned stored, st1) \<Rightarrow>
                let storedRooms = (case stored of None \<Rightarrow> [] | Some r \<Rightarrow> r)
                in (Returned (),
                    st1\<lparr>roomParticipants :=
                          fold (\<lambda>(roomId, sessionIds). Map_set roomId (new_Set sessionIds))
                            storedRooms (roomParticipants st1),
                        initialized := True\<rparr>)))"

section \<open>Joining and leaving rooms\<close>

text \<open>
  \<open>handleRoomJoin\<close> and \<open>handleRoomLeave\<close> receive a session object. The object is
  addressed by \<open>ref\<close>, the key under which the registry holds it; \<open>session\<close> is its
  content when the call starts. The mutation of \<open>session.rooms\<close> is a mutation of the
  registered object.
\<close>

definition handleRoomJoin ::
  "string \<Rightarrow> ActiveSession \<Rightarrow> json \<Rightarrow> Coordinator \<Rightarrow> unit outcome \<times> Coordinator" where
  "handleRoomJoin ref session roomId st =
     (let roomKey = String roomId;
          conns = AList.map_entry ref (\<lambda>s. s\<lparr>rooms := Set_add roomKey (rooms s)\<rparr>)
                    (activeConnections st);
          rp1 = (if \<not> Map_has (roomParticipants st) roomKey
                 then Map_set roomKey [] (roomParticipants st)
                 else roomParticipants st);
          rp2 = AList.map_entry roomKey (Set_add (id' session)) rp1
      in saveState (st\<lparr>activeConnections := conns, roomParticipants := rp2\<rparr>))"

definition handleRoomLeave ::
  "string \<Rightarrow> ActiveSession \<Rightarrow> json \<Rightarrow> Coordinator \<Rightarrow> unit outcome \<times> Coordinator" where
  "handleRoomLeave ref session roomId st =
     (let roomKey = String roomId;
          conns = AList.map_entry ref (\<lambda>s. s\<lparr>rooms := Set_delete roomKey (rooms s)\<rparr>)
                    (activeConnections st);
          rp = AList.map_entry roomKey (Set_delete (id' session)) (roomParticipants st)
      in saveState (st\<lparr>activeConnections := conns, roomParticipants := rp\<rparr>))"

text \<open>
  The inbound control frames, as the type \<open>WebSocketMessage\<close> has them, with the
  \<open>roomId\<close> of the payload (a string or a number).
\<close>

datatype WebSocketMessage =
    ROOM_JOIN json
  | ROOM_LEAVE json
  | OTHER_EVENT string

fun handleMessage :: "string \<Rightarrow> WebSocketMessage \<Rightarrow> Coordinator \<Rightarrow> unit outcome \<times> Coordinator" where
  "handleMessage sessionId message st =
     (case Map_get (activeConnections st) sessionId of
        None \<Rightarrow> (Returned (), st)
      | Some session \<Rightarrow>
          (case message of
             ROOM_JOIN roomId \<Rightarrow> handleRoomJoin sessionId session roomId st
           | ROOM_LEAVE roomId \<Rightarrow> handleRoomLeave sessionId session roomId st
           | OTHER_EVENT t \<Rightarrow> (Returned (), st)))"

section \<open>Closing a session\<close>

text \<open>The loop of \<open>handleSessionClose\<close> over \<open>session.rooms\<close>.\<close>

fun removeFromRooms ::
  "string \<Rightarrow> string list \<Rightarrow> (string \<times> string list) list \<Rightarrow> (string \<times> string list) list" where
  "removeFromRooms sessionId [] rp = rp"
| "removeFromRooms sessionId (roomId # rest) rp =
     (case Map_get rp roomId of
        None \<Rightarrow> removeFromRooms sessionId rest rp
      | Some participants \<Rightarrow>
          (let participants' = Set_delete sessionId participants;
               rp' = Map_set roomId participants' rp
           in removeFromRooms sessionId rest
                (if length participants' = 0 then Map_delete roomId rp' else rp')))"

definition handleSessionClose :: "string \<Rightarrow> Coordinator \<Rightarrow> unit outcome \<times> Coordinator" where
  "handleSessionClose sessionId st =
     (case Map_get (activeConnections st) sessionId of
        None \<Rightarrow> (Returned (), st)
      | Some session \<Rightarrow>
          saveState (st\<lparr>roomParticipants :=
                          removeFromRooms sessionId (rooms session) (roomParticipants st),
                        activeConnections := Map_delete sessionId (activeConnections st)\<rparr>))"

text \<open>The members of a room, as the index has them; no entry, no members.\<close>

definition members :: "Coordinator \<Rightarrow> string \<Rightarrow> string set" where
  "members st roomId =
     (case Map_get (roomParticipants st) roomId of None \<Rightarrow> {} | Some ps \<Rightarrow> set ps)"

section \<open>The reaper\<close>

text \<open>
  A \<open>for ... of\<close> loop over a \<open>Map\<close> visits the entries that are in the map when it
  reaches them: the loop runs over the keys present at its start and skips a key whose
  entry has been deleted in the meantime (no iteration adds an entry). An exception
  thrown by the body leaves the loop.
\<close>

fun cleanupLoop :: "string list \<Rightarrow> Coordinator \<Rightarrow> unit outcome \<times> Coordinator" where
  "cleanupLoop [] st = (Returned (), st)"
| "cleanupLoop (sessionId # rest) st =
     (case Map_get (activeConnections st) sessionId of
        None \<Rightarrow> cleanupLoop rest st
      | Some session \<Rightarrow>
          if readyState (socket session) \<noteq> OPEN
          then (case handleSessionClose sessionId st of
                  (Threw, st') \<Rightarrow> (Threw, st')
                | (Returned u, st') \<Rightarrow> cleanupLoop rest st')
          else cleanupLoop rest st)"

definition cleanupStaleConnections :: "Coordinator \<Rightarrow> unit outcome \<times> Coordinator" where
  "cleanupStaleConnections st = cleanupLoop (map fst (activeConnections st)) st"

section \<open>Broadcast\<close>

record Request =
  http_method :: string
  json_body :: "json option"

text \<open>
  \<open>json_body\<close> is what \<open>request.json()\<close> resolves to, \<open>None\<close> when the body is not JSON
  and the promise rejects. A response is its status and its body: a text, or the JSON
  object \<open>{success: true, recipients: n}\<close>.
\<close>

datatype response_body = Text string | Recipients nat

datatype Response = Response (status: nat) (content: response_body)

text \<open>\<open>session.socket.send(JSON.stringify(data))\<close> on the session object stored under \<open>ref\<close>.\<close>

definition socket_send :: "string \<Rightarrow> json \<Rightarrow> Coordinator \<Rightarrow> Coordinator" where
  "socket_send ref data st =
     st\<lparr>activeConnections :=
          AList.map_entry ref (\<lambda>s. s\<lparr>socket := (socket s)\<lparr>sent := sent (socket s) @ [data]\<rparr>\<rparr>)
            (activeConnections st)\<rparr>"

text \<open>The loop over \<open>this.activeConnections\<close> for the global events.\<close>

fun broadcastToAll :: "json \<Rightarrow> string list \<Rightarrow> nat \<Rightarrow> Coordinator \<Rightarrow> nat outcome \<times> Coordinator" where
  "broadcastToAll validatedMessage [] broadcastCount st = (Returned broadcastCount, st)"
| "broadcastToAll validatedMessage (key # rest) broadcastCount st =
     (case Map_get (activeConnections st) key of
        None \<Rightarrow> broadcastToAll validatedMessage rest broadcastCount st
      | Some session \<Rightarrow>
          if readyState (socket session) = OPEN
          then broadcastToAll validatedMessage rest (broadcastCount + 1)
                 (socket_send key validatedMessage st)
          else (case handleSessionClose (id' session) st of
                  (Threw, st') \<Rightarrow> (Threw, st')
                | (Returned u, st') \<Rightarrow> broadcastToAll validatedMessage rest broadcastCount st'))"

text \<open>
  The loop over \<open>roomSessions\<close>, the set object of the room. The body deletes from that
  set no other element than the one it is visiting (directly, or through
  \<open>handleSessionClose\<close> of that element), so the loop visits every element that the set
  has at the start. The set object is the entry of the room in the index; when
  \<open>handleSessionClose\<close> has removed the entry because the set became empty, a later
  \<open>roomSessions.delete\<close> would act on an object that the index no longer holds, and
  \<^const>\<open>AList.map_entry\<close> changes nothing then.
\<close>

fun broadcastToRoom ::
  "json \<Rightarrow> string \<Rightarrow> string list \<Rightarrow> nat \<Rightarrow> Coordinator \<Rightarrow> nat outcome \<times> Coordinator" where
  "broadcastToRoom validatedMessage roomIdString [] broadcastCount st = (Returned broadcastCount, st)"
| "broadcastToRoom validatedMessage roomIdString (sessionId # rest) broadcastCount st =
     (case Map_get (activeConnections st) sessionId of
        None \<Rightarrow>
          broadcastToRoom validatedMessage roomIdString rest broadcastCount
            (st\<lparr>roomParticipants :=
                  AList.map_entry roomIdString (Set_delete sessionId) (roomParticipants st)\<rparr>)
      | Some session \<Rightarrow>
          if readyState (socket session) = OPEN
          then broadcastToRoom validatedMessage roomIdString rest (broadcastCount + 1)
                 (socket_send sessionId validatedMessage st)
          else (case handleSessionClose sessionId st of
                  (Threw, st') \<Rightarrow> (Threw, st')
                | (Returned u, st') \<Rightarrow>
                    broadcastToRoom validatedMessage roomIdString rest broadcastCount st'))"

text \<open>
  The \<open>try\<close> block of \<open>handleBroadcast\<close>. \<open>'roomId' in payload\<close> throws a
  \<open>TypeError\<close> when the payload is not an object.
\<close>

definition broadcastTry :: "Request \<Rightarrow> Coordinator \<Rightarrow> Response outcome \<times> Coordinator" where
  "broadcastTry request st =
     (case json_body request of
        None \<Rightarrow> (Threw, st)
      | Some rawMessage \<Rightarrow>
          (case parse BroadcastMessageSchema rawMessage of
             None \<Rightarrow> (Threw, st)
           | Some validatedMessage \<Rightarrow>
               if get_prop validatedMessage ''type'' = JStr NOTIFICATION_DELETED
                  \<or> get_prop validatedMessage ''type'' = JStr NOTIFICATION_CLEARED
               then (case broadcastToAll validatedMessage (map fst (activeConnections st)) 0 st of
                       (Threw, st') \<Rightarrow> (Threw, st')
                     | (Returned broadcastCount, st') \<Rightarrow>
                         (Returned (Response 200 (Recipients broadcastCount)), st'))
               else
                 (case get_prop validatedMessage ''payload'' of
                    JObj payload \<Rightarrow>
                      (let roomId = (if Map_has payload ''roomId''
                                     then get_prop (JObj payload) ''roomId'' else JNull)
                       in if falsy roomId
                          then (Returned (Response 400 (Text ''Room ID required for this message type'')), st)
                          else
                            (let roomIdString = String roomId
                             in case Map_get (roomParticipants st) roomIdString of
                                  None \<Rightarrow> (Returned (Response 404 (Text ''Room not found'')), st)
                                | Some roomSessions \<Rightarrow>
                                    (case broadcastToRoom validatedMessage roomIdString roomSessions 0 st of
                                       (Threw, st') \<Rightarrow> (Threw, st')
                                     | (Returned broadcastCount, st') \<Rightarrow>
                                         (case saveState st' of
                                            (Threw, st'') \<Rightarrow> (Threw, st'')
                                          | (Returned u, st'') \<Rightarrow>
                                              (Returned (Response 200 (Recipients broadcastCount)), st'')))))
                  | _ \<Rightarrow> (Threw, st))))"

definition handleBroadcast :: "Request \<Rightarrow> Coordinator \<Rightarrow> Response outcome \<times> Coordinator" where
  "handleBroadcast request st0 =
     (case initialize st0 of
        (Threw, st) \<Rightarrow> (Threw, st)
      | (Returned u, st) \<Rightarrow>
          if http_method request \<noteq> ''POST''
          then (Returned (Response 405 (Text ''Method not allowed'')), st)
          else (case broadcastTry request st of
                  (Threw, st') \<Rightarrow> (Returned (Response 500 (Text ''Internal server error'')), st')
                | (Returned response, st') \<Rightarrow> (Returned response, st')))"

section \<open>Token verification\<close>

text \<open>
  The primitives of the platform that \<open>decode\<close> calls are parameters: the Base64
  decoder (\<open>Buffer.from(s, 'base64').toString('utf8')\<close>), \<open>JSON.parse\<close> (\<open>None\<close> when it
  throws) and the HMAC-SHA256 check of a signature on some data under a key.
  \<open>Date.now()\<close> is the argument \<open>now\<close>, in milliseconds.
\<close>

record Platform =
  base64_decode :: "string \<Rightarrow> string"
  JSON_parse :: "string \<Rightarrow> json option"
  hmac_verify :: "string \<Rightarrow> string \<Rightarrow> string \<Rightarrow> bool"

definition payloadSchema :: schema where
  "payloadSchema =
     ZObject
      [(''sub'', ZString),
       (''name'', ZOptional ZString),
       (''email'', ZOptional ZString),
       (''iat'', ZOptional ZNumber),
       (''exp'', ZOptional ZNumber),
       (''jti'', ZOptional ZString)]"

text \<open>What \<open>decode\<close> throws inside its \<open>try\<close> block, and what it throws in the end.\<close>

datatype failure =
    InvalidTokenFormat
  | Base64UrlDecodeFailed
  | JSONSyntaxError
  | HeaderTypeError
  | InvalidTokenAlgorithm
  | PayloadSchemaError
  | InvalidSignature
  | TokenHasExpired

datatype decode_error =
    NoTokenProvided
  | InvalidJWTSecret
  | JWTVerificationFailed failure

text \<open>\<open>token.split('.')\<close>.\<close>

fun split_dot :: "string \<Rightarrow> string list" where
  "split_dot [] = [[]]"
| "split_dot (c # cs) =
     (if c = CHR ''.'' then [] # split_dot cs
      else (case split_dot cs of [] \<Rightarrow> [[c]] | w # ws \<Rightarrow> (c # w) # ws))"

definition base64UrlDecode :: "Platform \<Rightarrow> string \<Rightarrow> string option" where
  "base64UrlDecode P str =
     (if str = [] then None
      else
        (let pad = length str mod 4;
             padded = (if pad \<noteq> 0 then str @ replicate (4 - pad) (CHR ''='') else str);
             normalized = map (\<lambda>c. if c = CHR ''-'' then CHR ''+''
                                    else if c = CHR ''_'' then CHR ''/'' else c) padded;
             decoded = base64_decode P normalized
         in if decoded = [] then None else Some decoded))"

text \<open>\<open>x && x < n\<close> for the \<open>exp\<close> claim, a number or \<open>undefined\<close> after validation.\<close>

fun expired :: "json \<Rightarrow> int \<Rightarrow> bool" where
  "expired (JNum e) now = (e \<noteq> 0 \<and> e < now div 1000)"
| "expired v now = False"

definition decodeTry :: "Platform \<Rightarrow> int \<Rightarrow> string \<Rightarrow> string \<Rightarrow> failure + json" where
  "decodeTry P now token validSecret =
     (case split_dot token of
        [headerSegment, payloadSegment, signatureSegment] \<Rightarrow>
          (case base64UrlDecode P headerSegment of
             None \<Rightarrow> Inl Base64UrlDecodeFailed
           | Some headerStr \<Rightarrow>
               (case JSON_parse P headerStr of
                  None \<Rightarrow> Inl JSONSyntaxError
                | Some header \<Rightarrow>
                    if header = JNull then Inl HeaderTypeError
                    else if get_prop header ''alg'' \<noteq> JStr ''HS256'' then Inl InvalidTokenAlgorithm
                    else
                      (case base64UrlDecode P payloadSegment of
                         None \<Rightarrow> Inl Base64UrlDecodeFailed
                       | Some payloadStr \<Rightarrow>
                           (case JSON_parse P payloadStr of
                              None \<Rightarrow> Inl JSONSyntaxError
                            | Some payload \<Rightarrow>
                                (case parse payloadSchema payload of
                                   None \<Rightarrow> Inl PayloadSchemaError
                                 | Some validatedPayload \<Rightarrow>
                                     (case base64UrlDecode P signatureSegment of
                                        None \<Rightarrow> Inl Base64UrlDecodeFailed
                                      | Some signatureData \<Rightarrow>
                                          if \<not> hmac_verify P validSecret signatureData
                                                 (headerSegment @ ''.'' @ payloadSegment)
                                          then Inl InvalidSignature
                                          else if expired (get_prop validatedPayload ''exp'') now
                                          then Inl TokenHasExpired
                                          else Inr validatedPayload))))))
      | _ \<Rightarrow> Inl InvalidTokenFormat)"

definition decode :: "Platform \<Rightarrow> int \<Rightarrow> string option \<Rightarrow> string option \<Rightarrow> decode_error + json" where
  "decode P now token secret =
     (case token of
        None \<Rightarrow> Inl NoTokenProvided
      | Some tok \<Rightarrow>
          if tok = [] then Inl NoTokenProvided
          else (case secret of
                  None \<Rightarrow> Inl InvalidJWTSecret
                | Some validSecret \<Rightarrow>
                    if validSecret = [] then Inl InvalidJWTSecret
                    else (case decodeTry P now tok validSecret of
                            Inl baseError \<Rightarrow> Inl (JWTVerificationFailed baseError)
                          | Inr validatedPayload \<Rightarrow> Inr validatedPayload)))"

text \<open>
  \<open>verifyToken\<close> of the socket worker. \<open>now1\<close> is the clock when \<open>decode\<close> reads it,
  \<open>now2\<close> when \<open>verifyToken\<close> reads it afterwards.
\<close>

record Env =
  JWT_SECRET :: "string option"

datatype verify_cause =
    DecodeFailed decode_error
  | MissingSubject
  | TokenExpired

datatype verify_error =
    SecretNotConfigured
  | WebSocketAuthenticationFailed verify_cause

definition verifyToken :: "Platform \<Rightarrow> int \<Rightarrow> int \<Rightarrow> string \<Rightarrow> Env \<Rightarrow> verify_error + json" where
  "verifyToken P now1 now2 token env =
     (if JWT_SECRET env = None \<or> JWT_SECRET env = Some [] then Inl SecretNotConfigured
      else (case decode P now1 (Some token) (JWT_SECRET env) of
              Inl e \<Rightarrow> Inl (WebSocketAuthenticationFailed (DecodeFailed e))
            | Inr payload \<Rightarrow>
                if falsy (get_prop payload ''sub'')
                then Inl (WebSocketAuthenticationFailed MissingSubject)
                else if expired (get_prop payload ''exp'') now2
                then Inl (WebSocketAuthenticationFailed TokenExpired)
                else Inr payload))"

section \<open>The membership invariant\<close>

text \<open>
  Bidirectional consistency of the data model, for the sessions of the registry: the
  session stored under a key has that key as its id, and it is a member of a room exactly
  when the room is in its \<open>rooms\<close> set. Ids that a room lists and the registry does not
  hold (left over from before a restart) are not constrained.
\<close>

definition consistent :: "Coordinator \<Rightarrow> bool" where
  "consistent st \<longleftrightarrow>
     (\<forall>k s. Map_get (activeConnections st) k = Some s \<longrightarrow>
        id' s = k \<and> (\<forall>R. (k \<in> members st R) = (R \<in> set (rooms s))))"

section \<open>Vocabulary of the claims\<close>

text \<open>
  A session id is open when the registry holds a session under it whose socket reports
  \<open>OPEN\<close>, dead when the registry holds one whose socket reports another state. The
  storage is in order when none of the coming operations is rejected. A request is a
  room-scoped broadcast of \<open>validatedMessage\<close> to the room \<open>roomIdString\<close> when it is a
  \<open>POST\<close> whose body the schema accepts with that result, whose tag is none of the two
  global ones and whose payload holds a \<open>roomId\<close> that is not falsy.
\<close>

definition is_open :: "Coordinator \<Rightarrow> string \<Rightarrow> bool" where
  "is_open st sessionId =
     (case Map_get (activeConnections st) sessionId of
        None \<Rightarrow> False
      | Some session \<Rightarrow> readyState (socket session) = OPEN)"

definition is_dead :: "Coordinator \<Rightarrow> string \<Rightarrow> bool" where
  "is_dead st sessionId =
     (case Map_get (activeConnections st) sessionId of
        None \<Rightarrow> False
      | Some session \<Rightarrow> readyState (socket session) \<noteq> OPEN)"

definition storage_ok :: "Coordinator \<Rightarrow> bool" where
  "storage_ok st \<longleftrightarrow> True \<notin> set (storageFaults st)"

definition room_scoped :: "Request \<Rightarrow> json \<Rightarrow> string \<Rightarrow> bool" where
  "room_scoped request validatedMessage roomIdString \<longleftrightarrow>
     http_method request = ''POST''
     \<and> (case json_body request of
          None \<Rightarrow> False
        | Some rawMessage \<Rightarrow> parse BroadcastMessageSchema rawMessage = Some validatedMessage)
     \<and> get_prop validatedMessage ''type'' \<noteq> JStr NOTIFICATION_DELETED
     \<and> get_prop validatedMessage ''type'' \<noteq> JStr NOTIFICATION_CLEARED
     \<and> \<not> falsy (get_prop (get_prop validatedMessage ''payload'') ''roomId'')
     \<and> roomIdString = String (get_prop (get_prop validatedMessage ''payload'') ''roomId'')"

section \<open>Example states\<close>

text \<open>A session as \<open>handleSession\<close> registers it, with a given socket state and rooms.\<close>

definition example_session :: "string \<Rightarrow> ready_state \<Rightarrow> string list \<Rightarrow> ActiveSession" where
  "example_session sessionId rs rms =
     \<lparr>id' = sessionId, userId = ''7'', userName = None,
      socket = \<lparr>readyState = rs, sent = []\<rparr>, rooms = rms\<rparr>"

definition example_coordinator ::
  "(string \<times> ActiveSession) list \<Rightarrow> (string \<times> string list) list \<Rightarrow> bool list \<Rightarrow> Coordinator" where
  "example_coordinator conns rp faults =
     \<lparr>activeConnections = conns, roomParticipants = rp, initialized = True,
      storage = None, storageFaults = faults\<rparr>"

text \<open>Session A in the rooms 42 and 7, session B in the room 42.\<close>

definition two_sessions :: Coordinator where
  "two_sessions =
     example_coordinator
       [(''A'', example_session ''A'' OPEN [''42'', ''7'']),
        (''B'', example_session ''B'' OPEN [''42''])]
       [(''42'', [''A'', ''B'']), (''7'', [''A''])] []"

text \<open>Session A alone in the room 42.\<close>

definition one_session :: Coordinator where
  "one_session =
     example_coordinator [(''A'', example_session ''A'' OPEN [''42''])] [(''42'', [''A''])] []"

text \<open>
  The sessions S1 (open), S2 (closed) and S3 (open), all in the room 42, and the id S0 of
  a session from before a restart that the room still lists.
\<close>

definition three_sessions :: Coordinator where
  "three_sessions =
     example_coordinator
       [(''S1'', example_session ''S1'' OPEN [''42'']),
        (''S2'', example_session ''S2'' CLOSED [''42'']),
        (''S3'', example_session ''S3'' OPEN [''42''])]
       [(''42'', [''S0'', ''S1'', ''S2'', ''S3''])] []"

text \<open>Two sessions whose sockets are closed, and a storage whose next write is rejected.\<close>

definition two_dead_sessions :: Coordinator where
  "two_dead_sessions =
     example_coordinator
       [(''A'', example_session ''A'' CLOSED [''42'']),
        (''B'', example_session ''B'' CLOSED [''42''])]
       [(''42'', [''A'', ''B''])] [True]"

text \<open>
  Three sessions whose sockets are closed, and a storage that accepts the next write
  and rejects the one after it.
\<close>

definition three_dead_sessions :: Coordinator where
  "three_dead_sessions =
     example_coordinator
       [(''A'', example_session ''A'' CLOSED [''42'']),
        (''B'', example_session ''B'' CLOSED [''42'']),
        (''C'', example_session ''C'' CLOSED [''42''])]
       [(''42'', [''A'', ''B'', ''C''])] [False, True]"

text \<open>The room 42 with an entry and no member, as a \<open>room:leave\<close> of its last member leaves it.\<close>

definition empty_room :: Coordinator where
  "empty_room = example_coordinator [] [(''42'', [])] []"

text \<open>A chat message for the room 42 and a notification record, as the callers post them.\<close>

definition example_chat_payload :: json where
  "example_chat_payload =
     JObj [(''roomId'', JStr ''42''),
           (''message'', JObj
             [(''id'', JNum 1),
              (''conversation_id'', JNum 42),
              (''user_id'', JNum 7),
              (''content'', JStr ''hello''),
              (''is_ai'', JBool False),
              (''sender_name'', JStr ''Ann''),
              (''created_at'', JStr ''2024-01-01T00:00:00.000Z''),
              (''eligibility_status'', JStr ''pending''),
              (''eligibility_reasons'', JArr []),
              (''heart_points_received'', JNum 0),
              (''heart_points_awarded_at'', JNull),
              (''heart_points_awarded_by'', JNull)])]"

definition example_notification :: json where
  "example_notification =
     JObj [(''id'', JNum 1),
           (''userId'', JNum 7),
           (''type'', JStr ''announcement''),
           (''title'', JStr ''News''),
           (''content'', JStr ''hello''),
           (''link'', JNull),
           (''isRead'', JBool False),
           (''createdAt'', JStr ''2024-01-01T00:00:00.000Z''),
           (''metadata'', JObj [])]"

definition post :: "string \<Rightarrow> json \<Rightarrow> Request" where
  "post tag payload =
     \<lparr>http_method = ''POST'', json_body = Some (JObj [(''type'', JStr tag), (''payload'', payload)])\<rparr>"

text \<open>
  A stand-in for the platform, for a token \<open>h.p.s\<close>: the decoder drops the padding, the
  header segment parses to an HS256 header, the payload segment to a payload with a
  subject and no \<open>exp\<close>, and the signature \<open>s\<close> is the valid one under the key
  \<open>secret\<close>.
\<close>

definition example_platform :: Platform where
  "example_platform =
     \<lparr>base64_decode = (\<lambda>s. takeWhile (\<lambda>c. c \<noteq> CHR ''='') s),
      JSON_parse = (\<lambda>s. if s = ''h'' then Some (JObj [(''alg'', JStr ''HS256''), (''typ'', JStr ''JWT'')])
                        else if s = ''p'' then Some (JObj [(''sub'', JStr ''7'')])
                        else None),
      hmac_verify = (\<lambda>key signature data. key = ''secret'' \<and> signature = ''s'' \<and> data = ''h.p'')\<rparr>"

section \<open>Facts about the containers and the persistence\<close>

lemma Set_add_idem: "Set_add x (Set_add x xs) = Set_add x xs"
  by (simp add: Set_add_def)

lemma Set_delete_idem: "Set_delete x (Set_delete x xs) = Set_delete x xs"
  by (simp add: Set_delete_def)

lemma map_entry_twice:
  "AList.map_entry k f (AList.map_entry k g al) = AList.map_entry k (\<lambda>x. f (g x)) al"
  by (induction al) auto

lemma map_of_map_entry_eq:
  "map_of (AList.map_entry k f al) k' =
     (if k' = k then map_option f (map_of al k) else map_of al k')"
  by (induction al) auto

text \<open>\<open>saveState\<close> writes to the storage only, whether it throws or not.\<close>

lemma saveState_mem:
  "activeConnections (snd (saveState st)) = activeConnections st"
  "roomParticipants (snd (saveState st)) = roomParticipants st"
  "initialized (snd (saveState st)) = initialized st"
  by (auto simp: saveState_def storage_put_def split: list.splits)

section \<open>Closing a session cleans all its rooms\<close>

lemma map_of_removeFromRooms:
  "map_of (removeFromRooms sid rs rp) R =
     (if R \<in> set rs
      then (case map_of rp R of None \<Rightarrow> None
            | Some ps \<Rightarrow> if removeAll sid ps = [] then None else Some (removeAll sid ps))
      else map_of rp R)"
proof (induction rs arbitrary: rp)
  case Nil
  then show ?case by simp
next
  case (Cons r rs)
  show ?case
  proof (cases "map_of rp r")
    case None
    then show ?thesis using Cons.IH [of rp] by auto
  next
    case (Some ps)
    then show ?thesis using Cons.IH
      by (auto simp: Let_def Set_delete_def update_conv' delete_conv' split: option.splits)
  qed
qed

lemma handleSessionClose_mem:
  "Map_get (activeConnections st) S = Some session \<Longrightarrow>
     activeConnections (snd (handleSessionClose S st)) = Map_delete S (activeConnections st) \<and>
     roomParticipants (snd (handleSessionClose S st)) =
       removeFromRooms S (rooms session) (roomParticipants st)"
  by (simp add: handleSessionClose_def saveState_mem)

lemma handleSessionClose_absent:
  "Map_get (activeConnections st) S = None \<Longrightarrow> handleSessionClose S st = (Returned (), st)"
  by (simp add: handleSessionClose_def)

lemma saveState_ok:
  "storage_ok st \<Longrightarrow> fst (saveState st) = Returned () \<and> storage_ok (snd (saveState st))"
  by (auto simp: storage_ok_def saveState_def storage_put_def split: list.splits)

lemma handleSessionClose_ok:
  "storage_ok st \<Longrightarrow>
     fst (handleSessionClose S st) = Returned () \<and> storage_ok (snd (handleSessionClose S st))"
  by (auto simp: handleSessionClose_def saveState_def storage_put_def storage_ok_def
      split: option.splits list.splits)

lemma lookup_socket_send:
  "Map_get (activeConnections (socket_send k m st)) k' =
     (if k' = k
      then map_option (\<lambda>s. s\<lparr>socket := (socket s)\<lparr>sent := sent (socket s) @ [m]\<rparr>\<rparr>)
             (Map_get (activeConnections st) k)
      else Map_get (activeConnections st) k')"
  by (simp add: socket_send_def map_of_map_entry_eq)

lemma members_socket_send: "members (socket_send k m st) R = members st R"
  by (simp add: socket_send_def members_def)

lemma lookup_handleSessionClose:
  "Map_get (activeConnections (snd (handleSessionClose S st))) k =
     (if k = S then None else Map_get (activeConnections st) k)"
  by (auto simp: handleSessionClose_def saveState_mem delete_conv' split: option.splits)

lemma removeAll_Nil_iff: "removeAll a xs = [] \<longleftrightarrow> set xs \<subseteq> {a}"
  by (induction xs) auto

lemma members_handleSessionClose:
  "members (snd (handleSessionClose S st)) R =
     (case Map_get (activeConnections st) S of
        None \<Rightarrow> members st R
      | Some s \<Rightarrow> if R \<in> set (rooms s) then members st R - {S} else members st R)"
  by (auto simp: handleSessionClose_def saveState_mem members_def map_of_removeFromRooms
      removeAll_Nil_iff split: option.splits)

lemma members_stale:
  "members (st\<lparr>roomParticipants := AList.map_entry R (Set_delete x) (roomParticipants st)\<rparr>) R' =
     (if R' = R then members st R - {x} else members st R')"
  by (auto simp: members_def map_of_map_entry_eq Set_delete_def split: option.splits)

lemma members_saveState: "members (snd (saveState st)) R = members st R"
  by (simp add: members_def saveState_mem)

lemma consistent_socket_send: "consistent st \<Longrightarrow> consistent (socket_send k m st)"
  unfolding consistent_def by (auto simp: lookup_socket_send members_socket_send split: if_splits)

lemma consistent_handleSessionClose: "consistent st \<Longrightarrow> consistent (snd (handleSessionClose S st))"
  unfolding consistent_def
  by (auto simp: lookup_handleSessionClose members_handleSessionClose split: if_splits option.splits)

lemma consistent_stale:
  "consistent st \<Longrightarrow> Map_get (activeConnections st) x = None \<Longrightarrow>
     consistent (st\<lparr>roomParticipants := AList.map_entry R (Set_delete x) (roomParticipants st)\<rparr>)"
  unfolding consistent_def by (auto simp: members_stale split: if_splits)

lemma consistent_saveState: "consistent st \<Longrightarrow> consistent (snd (saveState st))"
  unfolding consistent_def by (simp add: saveState_mem members_saveState)

text \<open>
  C5. For a session \<open>S\<close> of the registry, joined to the rooms of its \<open>rooms\<close> set: after
  \<open>handleSessionClose S\<close> the registry does not hold \<open>S\<close>, \<open>S\<close> is a member of none of
  these rooms, none of these rooms is left with an empty entry, and a second
  \<open>handleSessionClose S\<close> returns without changing anything. This holds whether or not
  the write to the storage at the end of the first call throws.
\<close>

theorem handleSessionClose_cleans_all_rooms:
  assumes "Map_get (activeConnections st) S = Some session"
  shows "Map_get (activeConnections (snd (handleSessionClose S st))) S = None
     \<and> (\<forall>R \<in> set (rooms session).
           S \<notin> members (snd (handleSessionClose S st)) R
           \<and> Map_get (roomParticipants (snd (handleSessionClose S st))) R \<noteq> Some [])
     \<and> handleSessionClose S (snd (handleSessionClose S st))
         = (Returned (), snd (handleSessionClose S st))"
proof -
  let ?st' = "snd (handleSessionClose S st)"
  have reg: "Map_get (activeConnections ?st') S = None"
    using handleSessionClose_mem [OF assms] by (simp add: delete_conv')
  have rp: "roomParticipants ?st' = removeFromRooms S (rooms session) (roomParticipants st)"
    using handleSessionClose_mem [OF assms] by simp
  have rooms: "\<forall>R \<in> set (rooms session).
           S \<notin> members ?st' R \<and> Map_get (roomParticipants ?st') R \<noteq> Some []"
    by (auto simp: members_def rp map_of_removeFromRooms split: option.splits if_splits)
  from reg rooms handleSessionClose_absent [OF reg] show ?thesis by blast
qed

theorem handleSessionClose_cleans_all_rooms_witness:
  "Map_get (activeConnections two_sessions) ''A'' = Some (example_session ''A'' OPEN [''42'', ''7''])
   \<and> Map_get (activeConnections (snd (handleSessionClose ''A'' two_sessions))) ''A'' = None
   \<and> ''A'' \<notin> members (snd (handleSessionClose ''A'' two_sessions)) ''42''
   \<and> Map_get (roomParticipants (snd (handleSessionClose ''A'' two_sessions))) ''42'' \<noteq> Some []
   \<and> ''A'' \<notin> members (snd (handleSessionClose ''A'' two_sessions)) ''7''
   \<and> Map_get (roomParticipants (snd (handleSessionClose ''A'' two_sessions))) ''7'' \<noteq> Some []
   \<and> handleSessionClose ''A'' (snd (handleSessionClose ''A'' two_sessions))
       = (Returned (), snd (handleSessionClose ''A'' two_sessions))"
proof -
  have h: "Map_get (activeConnections two_sessions) ''A''
             = Some (example_session ''A'' OPEN [''42'', ''7''])"
    by (simp add: two_sessions_def example_coordinator_def)
  have r: "rooms (example_session ''A'' OPEN [''42'', ''7'']) = [''42'', ''7'']"
    by (simp add: example_session_def)
  show ?thesis
    using h handleSessionClose_cleans_all_rooms [OF h] unfolding r by simp
qed

section \<open>Joining and leaving twice\<close>

lemma handleRoomJoin_mem:
  "activeConnections (snd (handleRoomJoin ref session R st)) =
     AList.map_entry ref (\<lambda>s. s\<lparr>rooms := Set_add (String R) (rooms s)\<rparr>) (activeConnections st)"
  "roomParticipants (snd (handleRoomJoin ref session R st)) =
     AList.map_entry (String R) (Set_add (id' session))
       (if \<not> Map_has (roomParticipants st) (String R)
        then Map_set (String R) [] (roomParticipants st) else roomParticipants st)"
  by (simp_all add: handleRoomJoin_def Let_def saveState_mem)

lemma handleRoomLeave_mem:
  "activeConnections (snd (handleRoomLeave ref session R st)) =
     AList.map_entry ref (\<lambda>s. s\<lparr>rooms := Set_delete (String R) (rooms s)\<rparr>) (activeConnections st)"
  "roomParticipants (snd (handleRoomLeave ref session R st)) =
     AList.map_entry (String R) (Set_delete (id' session)) (roomParticipants st)"
  by (simp_all add: handleRoomLeave_def Let_def saveState_mem)

text \<open>
  C9. A \<open>room:join\<close> frame of session \<open>S\<close> for room \<open>R\<close> handled twice in a row leaves the
  registry (with the \<open>rooms\<close> set of every session) and the membership index exactly as
  handling it once does; the same holds for a \<open>room:leave\<close> frame.
\<close>

theorem join_leave_idempotent:
  "activeConnections (snd (handleMessage S (ROOM_JOIN R) (snd (handleMessage S (ROOM_JOIN R) st))))
     = activeConnections (snd (handleMessage S (ROOM_JOIN R) st))
   \<and> roomParticipants (snd (handleMessage S (ROOM_JOIN R) (snd (handleMessage S (ROOM_JOIN R) st))))
     = roomParticipants (snd (handleMessage S (ROOM_JOIN R) st))
   \<and> activeConnections (snd (handleMessage S (ROOM_LEAVE R) (snd (handleMessage S (ROOM_LEAVE R) st))))
     = activeConnections (snd (handleMessage S (ROOM_LEAVE R) st))
   \<and> roomParticipants (snd (handleMessage S (ROOM_LEAVE R) (snd (handleMessage S (ROOM_LEAVE R) st))))
     = roomParticipants (snd (handleMessage S (ROOM_LEAVE R) st))"
proof (cases "Map_get (activeConnections st) S")
  case None
  then show ?thesis by simp
next
  case (Some session)
  show ?thesis using Some
    by (simp add: handleRoomJoin_mem handleRoomLeave_mem map_of_map_entry_eq map_entry_twice
        Set_add_idem Set_delete_idem update_conv')
qed

section \<open>The loops preserve what every step preserves\<close>

lemma broadcastToRoom_preserves:
  assumes send: "\<And>st k. P st \<Longrightarrow> P (socket_send k m st)"
    and close: "\<And>st x. P st \<Longrightarrow> P (snd (handleSessionClose x st))"
    and stale: "\<And>st x. P st \<Longrightarrow> Map_get (activeConnections st) x = None \<Longrightarrow>
            P (st\<lparr>roomParticipants := AList.map_entry R (Set_delete x) (roomParticipants st)\<rparr>)"
    and start: "P st"
  shows "P (snd (broadcastToRoom m R ids n st))"
  using start
proof (induction ids arbitrary: n st)
  case Nil
  then show ?case by simp
next
  case (Cons x ids)
  show ?case
  proof (cases "Map_get (activeConnections st) x")
    case None
    then show ?thesis using Cons.IH [OF stale [OF Cons.prems None]] by simp
  next
    case (Some session)
    show ?thesis
    proof (cases "readyState (socket session) = OPEN")
      case True
      then show ?thesis using Some Cons.IH [OF send [OF Cons.prems]] by simp
    next
      case False
      obtain r st' where r: "handleSessionClose x st = (r, st')" by (cases "handleSessionClose x st")
      have "P st'" using close [OF Cons.prems, of x] r by simp
      then show ?thesis using Some False r Cons.IH [of st'] by (cases r) simp_all
    qed
  qed
qed

lemma broadcastToAll_preserves:
  assumes send: "\<And>st k. P st \<Longrightarrow> P (socket_send k m st)"
    and close: "\<And>st x. P st \<Longrightarrow> P (snd (handleSessionClose x st))"
    and start: "P st"
  shows "P (snd (broadcastToAll m ks n st))"
  using start
proof (induction ks arbitrary: n st)
  case Nil
  then show ?case by simp
next
  case (Cons k ks)
  show ?case
  proof (cases "Map_get (activeConnections st) k")
    case None
    then show ?thesis using Cons.IH [OF Cons.prems] by simp
  next
    case (Some session)
    show ?thesis
    proof (cases "readyState (socket session) = OPEN")
      case True
      then show ?thesis using Some Cons.IH [OF send [OF Cons.prems]] by simp
    next
      case False
      obtain r st' where r: "handleSessionClose (id' session) st = (r, st')"
        by (cases "handleSessionClose (id' session) st")
      have "P st'" using close [OF Cons.prems, of "id' session"] r by simp
      then show ?thesis using Some False r Cons.IH [of st'] by (cases r) simp_all
    qed
  qed
qed

lemma cleanupLoop_preserves:
  assumes close: "\<And>st x. P st \<Longrightarrow> P (snd (handleSessionClose x st))"
    and start: "P st"
  shows "P (snd (cleanupLoop ks st))"
  using start
proof (induction ks arbitrary: st)
  case Nil
  then show ?case by simp
next
  case (Cons k ks)
  show ?case
  proof (cases "Map_get (activeConnections st) k")
    case None
    then show ?thesis using Cons.IH [OF Cons.prems] by simp
  next
    case (Some session)
    show ?thesis
    proof (cases "readyState (socket session) = OPEN")
      case True
      then show ?thesis using Some Cons.IH [OF Cons.prems] by simp
    next
      case False
      obtain r st' where r: "handleSessionClose k st = (r, st')"
        by (cases "handleSessionClose k st")
      have "P st'" using close [OF Cons.prems, of k] r by simp
      then show ?thesis using Some False r Cons.IH [of st'] by (cases r) simp_all
    qed
  qed
qed


section \<open>A room-scoped broadcast\<close>

lemma broadcastTry_room_scoped:
  assumes "room_scoped request vm R"
  shows "broadcastTry request st =
     (case Map_get (roomParticipants st) R of
        None \<Rightarrow> (Returned (Response 404 (Text ''Room not found'')), st)
      | Some roomSessions \<Rightarrow>
          (case broadcastToRoom vm R roomSessions 0 st of
             (Threw, st') \<Rightarrow> (Threw, st')
           | (Returned broadcastCount, st') \<Rightarrow>
               (case saveState st' of
                  (Threw, st'') \<Rightarrow> (Threw, st'')
                | (Returned u, st'') \<Rightarrow>
                    (Returned (Response 200 (Recipients broadcastCount)), st''))))"
proof -
  obtain raw where raw: "json_body request = Some raw" "parse BroadcastMessageSchema raw = Some vm"
    using assms by (auto simp: room_scoped_def split: option.splits)
  obtain payload where p: "get_prop vm ''payload'' = JObj payload"
    using assms by (cases "get_prop vm ''payload''") (auto simp: room_scoped_def)
  have has: "Map_has payload ''roomId''"
    using assms p by (auto simp: room_scoped_def split: option.splits)
  show ?thesis
    using assms raw p has
    by (auto simp: broadcastTry_def room_scoped_def Let_def)
qed

lemma handleBroadcast_room_scoped:
  assumes "room_scoped request vm R" "initialized st"
  shows "handleBroadcast request st =
     (case broadcastTry request st of
        (Threw, st') \<Rightarrow> (Returned (Response 500 (Text ''Internal server error'')), st')
      | (Returned response, st') \<Rightarrow> (Returned response, st'))"
  using assms by (simp add: handleBroadcast_def initialize_def room_scoped_def)


section \<open>The membership invariant is preserved\<close>

lemma consistent_handleRoomJoin:
  assumes "consistent st" "Map_get (activeConnections st) S = Some session"
  shows "consistent (snd (handleRoomJoin S session R st))"
proof -
  have idS: "id' session = S" using assms by (auto simp: consistent_def)
  let ?st' = "snd (handleRoomJoin S session R st)"
  have reg: "\<And>k. Map_get (activeConnections ?st') k =
      (if k = S then Some (session\<lparr>rooms := Set_add (String R) (rooms session)\<rparr>)
       else Map_get (activeConnections st) k)"
    using assms(2) by (simp add: handleRoomJoin_mem map_of_map_entry_eq)
  have mem: "\<And>R'. members ?st' R' =
      (if R' = String R then insert S (members st R') else members st R')"
    by (auto simp: members_def handleRoomJoin_mem map_of_map_entry_eq update_conv' Set_add_def idS
        split: option.splits if_splits)
  show ?thesis
    using assms(1) unfolding consistent_def
    by (auto simp: reg mem Set_add_def idS assms(2) split: if_splits)
qed

lemma consistent_handleRoomLeave:
  assumes "consistent st" "Map_get (activeConnections st) S = Some session"
  shows "consistent (snd (handleRoomLeave S session R st))"
proof -
  have idS: "id' session = S" using assms by (auto simp: consistent_def)
  let ?st' = "snd (handleRoomLeave S session R st)"
  have reg: "\<And>k. Map_get (activeConnections ?st') k =
      (if k = S then Some (session\<lparr>rooms := Set_delete (String R) (rooms session)\<rparr>)
       else Map_get (activeConnections st) k)"
    using assms(2) by (simp add: handleRoomLeave_mem map_of_map_entry_eq)
  have mem: "\<And>R'. members ?st' R' =
      (if R' = String R then members st R' - {S} else members st R')"
    by (auto simp: members_def handleRoomLeave_mem map_of_map_entry_eq Set_delete_def idS
        split: option.splits if_splits)
  show ?thesis
    using assms(1) unfolding consistent_def
    by (auto simp: reg mem Set_delete_def idS assms(2) split: if_splits)
qed

lemma consistent_handleMessage: "consistent st \<Longrightarrow> consistent (snd (handleMessage S message st))"
  by (cases message)
     (auto simp: consistent_handleRoomJoin consistent_handleRoomLeave split: option.splits)

lemma broadcastTry_preserves:
  assumes send: "\<And>st k m. P st \<Longrightarrow> P (socket_send k m st)"
    and close: "\<And>st x. P st \<Longrightarrow> P (snd (handleSessionClose x st))"
    and stale: "\<And>st x R. P st \<Longrightarrow> Map_get (activeConnections st) x = None \<Longrightarrow>
            P (st\<lparr>roomParticipants := AList.map_entry R (Set_delete x) (roomParticipants st)\<rparr>)"
    and save: "\<And>st. P st \<Longrightarrow> P (snd (saveState st))"
    and start: "P st"
  shows "P (snd (broadcastTry request st))"
proof -
  have all: "\<And>m ks n. P (snd (broadcastToAll m ks n st))"
    by (rule broadcastToAll_preserves [where P = P, OF send close start])
  have room: "\<And>m R ids n. P (snd (broadcastToRoom m R ids n st))"
    by (rule broadcastToRoom_preserves [where P = P, OF send close stale start])
  have room_save: "\<And>m R ids n. P (snd (saveState (snd (broadcastToRoom m R ids n st))))"
    by (rule save [OF room])
  have all': "\<And>m ks n r st'. broadcastToAll m ks n st = (r, st') \<Longrightarrow> P st'"
    using all by (metis snd_conv)
  have room': "\<And>m R ids n r st'. broadcastToRoom m R ids n st = (r, st') \<Longrightarrow> P st'"
    using room by (metis snd_conv)
  have save': "\<And>st1 r st'. P st1 \<Longrightarrow> saveState st1 = (r, st') \<Longrightarrow> P st'"
    using save by (metis snd_conv)
  show ?thesis
    unfolding broadcastTry_def Let_def
    using start
    by (auto split: option.splits prod.splits outcome.splits json.splits
        dest: all' room' save')
qed


lemma handleBroadcast_preserves:
  assumes send: "\<And>st k m. P st \<Longrightarrow> P (socket_send k m st)"
    and close: "\<And>st x. P st \<Longrightarrow> P (snd (handleSessionClose x st))"
    and stale: "\<And>st x R. P st \<Longrightarrow> Map_get (activeConnections st) x = None \<Longrightarrow>
            P (st\<lparr>roomParticipants := AList.map_entry R (Set_delete x) (roomParticipants st)\<rparr>)"
    and save: "\<And>st. P st \<Longrightarrow> P (snd (saveState st))"
    and init: "P (snd (initialize st))"
  shows "P (snd (handleBroadcast request st))"
proof -
  obtain r st1 where i: "initialize st = (r, st1)" by (cases "initialize st")
  have p1: "P st1" using init i by simp
  have "P (snd (broadcastTry request st1))"
    by (rule broadcastTry_preserves [where P = P, OF send close stale save p1])
  then show ?thesis
    using i p1 unfolding handleBroadcast_def
    by (auto split: outcome.splits prod.splits)
qed

lemma initialize_registry: "activeConnections (snd (initialize st)) = activeConnections st"
  by (auto simp: initialize_def storage_get_def Let_def split: list.splits prod.splits outcome.splits)

lemma initialize_initialized: "initialized st \<Longrightarrow> initialize st = (Returned (), st)"
  by (simp add: initialize_def)

lemma empty_registry_consistent: "activeConnections st = [] \<Longrightarrow> consistent st"
  by (simp add: consistent_def)

lemma handleBroadcast_empty_registry:
  assumes "activeConnections st = []"
  shows "activeConnections (snd (handleBroadcast request st)) = []"
proof (rule handleBroadcast_preserves [where P = "\<lambda>st. activeConnections st = []"])
  show "activeConnections (snd (initialize st)) = []"
    using assms by (simp add: initialize_registry)
qed (simp_all add: socket_send_def handleSessionClose_def saveState_mem)

text \<open>
  C6. From a state that is consistent (for every session of the registry, the session is
  a member of a room exactly when the room is in its \<open>rooms\<close> set), handling a
  \<open>room:join\<close> frame, handling a \<open>room:leave\<close> frame, \<open>handleSessionClose\<close> and
  \<open>handleBroadcast\<close> (of any request, global or room-scoped, with the cleanup of dead
  and of unregistered sessions that it does on the way, whether or not a storage
  operation throws) each end in a consistent state. For \<open>handleBroadcast\<close> the
  coordinator has loaded the stored rooms already or has no session yet, as in every
  state that the coordinator reaches: \<open>handleSession\<close> loads them before it registers
  the first session.
\<close>

theorem consistency_preserved:
  assumes "consistent st"
  shows "consistent (snd (handleMessage S (ROOM_JOIN R) st))
     \<and> consistent (snd (handleMessage S (ROOM_LEAVE R) st))
     \<and> consistent (snd (handleSessionClose S st))
     \<and> (initialized st \<or> activeConnections st = [] \<longrightarrow>
          consistent (snd (handleBroadcast request st)))"
proof -
  have b1: "consistent (snd (handleBroadcast request st))" if "initialized st"
  proof (rule handleBroadcast_preserves [where P = consistent])
    show "consistent (snd (initialize st))"
      using that assms by (simp add: initialize_initialized)
  qed (simp_all add: consistent_socket_send consistent_handleSessionClose consistent_stale
        consistent_saveState)
  have b2: "consistent (snd (handleBroadcast request st))" if "activeConnections st = []"
    using handleBroadcast_empty_registry [OF that] by (rule empty_registry_consistent)
  show ?thesis
    using assms b1 b2
    by (auto simp: consistent_handleRoomJoin consistent_handleRoomLeave
        consistent_handleSessionClose split: option.splits)
qed

theorem consistency_preserved_witness:
  "consistent three_sessions
   \<and> consistent (snd (handleMessage ''S1'' (ROOM_JOIN (JStr ''7'')) three_sessions))
   \<and> consistent (snd (handleMessage ''S1'' (ROOM_LEAVE (JStr ''42'')) three_sessions))
   \<and> consistent (snd (handleSessionClose ''S2'' three_sessions))
   \<and> consistent (snd (handleBroadcast (post CHAT_MESSAGE example_chat_payload) three_sessions))"
proof -
  have c: "consistent three_sessions"
    unfolding consistent_def
    by (auto simp: three_sessions_def example_coordinator_def example_session_def members_def
        split: if_splits)
  have i: "initialized three_sessions"
    by (simp add: three_sessions_def example_coordinator_def)
  show ?thesis
    using c i
      consistency_preserved [OF c, where S = "''S1''" and R = "JStr ''7''"]
      consistency_preserved [OF c, where S = "''S1''" and R = "JStr ''42''"]
      consistency_preserved [OF c, where S = "''S2''"
        and request = "post CHAT_MESSAGE example_chat_payload"]
    by simp
qed

section \<open>The recipients of a room-scoped broadcast\<close>

lemma is_open_socket_send: "is_open (socket_send k m st) x = is_open st x"
  by (auto simp: is_open_def lookup_socket_send split: option.splits)

lemma is_open_handleSessionClose:
  "\<not> is_open st S \<Longrightarrow> is_open (snd (handleSessionClose S st)) x = is_open st x"
  by (auto simp: is_open_def lookup_handleSessionClose split: option.splits)

lemma is_open_stale:
  "is_open (st\<lparr>roomParticipants := rp\<rparr>) x = is_open st x"
  by (simp add: is_open_def)

lemma storage_ok_socket_send: "storage_ok (socket_send k m st) = storage_ok st"
  by (simp add: storage_ok_def socket_send_def)

lemma broadcastToRoom_count:
  "storage_ok st \<Longrightarrow>
     fst (broadcastToRoom m R ids n st) = Returned (n + length (filter (is_open st) ids))
     \<and> storage_ok (snd (broadcastToRoom m R ids n st))"
proof (induction ids arbitrary: n st)
  case Nil
  then show ?case by simp
next
  case (Cons x ids)
  show ?case
  proof (cases "Map_get (activeConnections st) x")
    case None
    let ?st1 = "st\<lparr>roomParticipants := AList.map_entry R (Set_delete x) (roomParticipants st)\<rparr>"
    have ok: "storage_ok ?st1" using Cons.prems by (simp add: storage_ok_def)
    have same: "is_open ?st1 = is_open st" by (rule ext) (rule is_open_stale)
    have nx: "\<not> is_open st x" using None by (simp add: is_open_def)
    show ?thesis using None Cons.IH [OF ok, of n] same nx by simp
  next
    case (Some session)
    show ?thesis
    proof (cases "readyState (socket session) = OPEN")
      case True
      let ?st1 = "socket_send x m st"
      have ok: "storage_ok ?st1" using Cons.prems by (simp add: storage_ok_socket_send)
      have same: "is_open ?st1 = is_open st" by (rule ext) (rule is_open_socket_send)
      have ox: "is_open st x" using Some True by (simp add: is_open_def)
      show ?thesis using Some True Cons.IH [OF ok, of "n + 1"] same ox by simp
    next
      case False
      obtain st' where r: "handleSessionClose x st = (Returned (), st')"
        using handleSessionClose_ok [OF Cons.prems, of x] by (cases "handleSessionClose x st") auto
      have ok: "storage_ok st'" using handleSessionClose_ok [OF Cons.prems, of x] r by simp
      have nx: "\<not> is_open st x" using Some False by (simp add: is_open_def)
      have same: "is_open st' = is_open st"
        using is_open_handleSessionClose [OF nx] r by (intro ext) simp
      show ?thesis using Some False r Cons.IH [OF ok, of n] same nx by simp
    qed
  qed
qed

lemma broadcastToRoom_absent:
  "Map_get (activeConnections st) S = None \<Longrightarrow>
     Map_get (activeConnections (snd (broadcastToRoom m R ids n st))) S = None"
  by (rule broadcastToRoom_preserves [where P = "\<lambda>st. Map_get (activeConnections st) S = None"])
     (auto simp: lookup_socket_send lookup_handleSessionClose)

lemma broadcastToRoom_not_member:
  "S \<notin> members st R' \<Longrightarrow> S \<notin> members (snd (broadcastToRoom m R ids n st)) R'"
  by (rule broadcastToRoom_preserves [where P = "\<lambda>st. S \<notin> members st R'"])
     (auto simp: members_socket_send members_handleSessionClose members_stale
        split: option.splits if_splits)

lemma broadcastToRoom_returned_count:
  "fst (broadcastToRoom m R ids n st) = Returned c \<Longrightarrow>
     c = n + length (filter (is_open st) ids)"
proof (induction ids arbitrary: n st)
  case Nil
  then show ?case by simp
next
  case (Cons x ids)
  show ?case
  proof (cases "Map_get (activeConnections st) x")
    case None
    let ?st1 = "st\<lparr>roomParticipants := AList.map_entry R (Set_delete x) (roomParticipants st)\<rparr>"
    have same: "is_open ?st1 = is_open st" by (rule ext) (rule is_open_stale)
    have nx: "\<not> is_open st x" using None by (simp add: is_open_def)
    show ?thesis using None Cons.IH [of n ?st1] Cons.prems same nx by simp
  next
    case (Some session)
    show ?thesis
    proof (cases "readyState (socket session) = OPEN")
      case True
      let ?st1 = "socket_send x m st"
      have same: "is_open ?st1 = is_open st" by (rule ext) (rule is_open_socket_send)
      have ox: "is_open st x" using Some True by (simp add: is_open_def)
      show ?thesis using Some True Cons.IH [of "n + 1" ?st1] Cons.prems same ox by simp
    next
      case False
      obtain r st' where r: "handleSessionClose x st = (r, st')"
        by (cases "handleSessionClose x st")
      have ret: "r = Returned ()" using Some False r Cons.prems by (cases r) simp_all
      have nx: "\<not> is_open st x" using Some False by (simp add: is_open_def)
      have same: "is_open st' = is_open st"
        using is_open_handleSessionClose [OF nx] r by (intro ext) simp
      show ?thesis using Some False r ret Cons.IH [of n st'] Cons.prems same nx by simp
    qed
  qed
qed

lemma broadcastToRoom_returned_reaps:
  assumes "fst (broadcastToRoom m R ids n st) = Returned c" "S \<in> set ids"
    "Map_get (activeConnections st) S = Some session"
    "readyState (socket session) \<noteq> OPEN" "R \<in> set (rooms session)"
  shows "Map_get (activeConnections (snd (broadcastToRoom m R ids n st))) S = None
     \<and> S \<notin> members (snd (broadcastToRoom m R ids n st)) R"
  using assms
proof (induction ids arbitrary: n st)
  case Nil
  then show ?case by simp
next
  case (Cons x ids)
  show ?case
  proof (cases "x = S")
    case True
    obtain r st' where r: "handleSessionClose S st = (r, st')"
      by (cases "handleSessionClose S st")
    have ret: "r = Returned ()" using True Cons.prems(1,3,4) r by (cases r) simp_all
    have gone: "Map_get (activeConnections st') S = None"
      using lookup_handleSessionClose [of S st S] r by simp
    have out: "S \<notin> members st' R"
      using members_handleSessionClose [of S st R] r Cons.prems(3,5) by simp
    show ?thesis
      using True Cons.prems(3,4) r ret broadcastToRoom_absent [OF gone]
        broadcastToRoom_not_member [OF out]
      by simp
  next
    case False
    then have inrest: "S \<in> set ids" using Cons.prems(2) by simp
    show ?thesis
    proof (cases "Map_get (activeConnections st) x")
      case None
      let ?st1 = "st\<lparr>roomParticipants := AList.map_entry R (Set_delete x) (roomParticipants st)\<rparr>"
      have ret: "fst (broadcastToRoom m R ids n ?st1) = Returned c" using None Cons.prems(1) by simp
      have l: "Map_get (activeConnections ?st1) S = Some session" using Cons.prems(3) by simp
      show ?thesis
        using None Cons.IH [OF ret inrest l Cons.prems(4,5)] by simp
    next
      case (Some sx)
      show ?thesis
      proof (cases "readyState (socket sx) = OPEN")
        case True
        let ?st1 = "socket_send x m st"
        have ret: "fst (broadcastToRoom m R ids (n + 1) ?st1) = Returned c"
          using Some True Cons.prems(1) by simp
        have l: "Map_get (activeConnections ?st1) S = Some session"
          using Cons.prems(3) False by (simp add: lookup_socket_send)
        show ?thesis
          using Some True Cons.IH [OF ret inrest l Cons.prems(4,5)] by simp
      next
        case dead: False
        obtain r st' where r: "handleSessionClose x st = (r, st')"
          by (cases "handleSessionClose x st")
        have rr: "r = Returned ()" using Some dead r Cons.prems(1) by (cases r) simp_all
        have ret: "fst (broadcastToRoom m R ids n st') = Returned c"
          using Some dead r rr Cons.prems(1) by simp
        have l: "Map_get (activeConnections st') S = Some session"
          using lookup_handleSessionClose [of x st S] r Cons.prems(3) False by simp
        show ?thesis
          using Some dead r rr Cons.IH [OF ret inrest l Cons.prems(4,5)] by simp
      qed
    qed
  qed
qed

lemma handleBroadcast_room_ok:
  assumes "initialized st" "storage_ok st" "room_scoped request vm R"
    "Map_get (roomParticipants st) R = Some roomSessions"
  shows "handleBroadcast request st =
     (Returned (Response 200 (Recipients (length (filter (is_open st) roomSessions)))),
      snd (saveState (snd (broadcastToRoom vm R roomSessions 0 st))))"
proof -
  obtain r st' where loop: "broadcastToRoom vm R roomSessions 0 st = (r, st')"
    by (cases "broadcastToRoom vm R roomSessions 0 st")
  have r: "r = Returned (length (filter (is_open st) roomSessions))" and ok: "storage_ok st'"
    using broadcastToRoom_count [OF assms(2), of vm R roomSessions 0] loop by simp_all
  obtain u st'' where save: "saveState st' = (u, st'')" by (cases "saveState st'")
  have u: "u = Returned ()" using saveState_ok [OF ok] save by simp
  show ?thesis
    using assms(4) loop r save u
    by (simp add: handleBroadcast_room_scoped [OF assms(3,1)] broadcastTry_room_scoped [OF assms(3)])
qed

lemma handleBroadcast_room_cases:
  assumes "initialized st" "room_scoped request vm R"
    "Map_get (roomParticipants st) R = Some roomSessions"
  shows "(\<exists>n. fst (broadcastToRoom vm R roomSessions 0 st) = Returned n
            \<and> handleBroadcast request st =
                (Returned (Response 200 (Recipients n)),
                 snd (saveState (snd (broadcastToRoom vm R roomSessions 0 st)))))
       \<or> fst (handleBroadcast request st) = Returned (Response 500 (Text ''Internal server error''))"
  using assms(3)
  by (auto simp: handleBroadcast_room_scoped [OF assms(2,1)] broadcastTry_room_scoped [OF assms(2)]
      split: prod.splits outcome.splits)

text \<open>
  C1. Take a room-scoped broadcast to a room that has an entry in the membership index,
  in a consistent state with the stored rooms loaded. Whenever the call returns a
  recipient count (status 200), the count is the number of ids in the room's set that
  are open when the loop reaches them: the registry holds a session under the id and
  its socket reports \<open>OPEN\<close> (the loop changes no other session's socket state, so
  this is the count in the state at the start; the set holds no id twice, so the length
  of the filtered list is that number). Every id of the set whose session is dead has
  then been closed by \<open>handleSessionClose\<close>: the registry does not hold it and it is no
  member of the room; it adds nothing to the count. And the call does return a count
  when the storage is in order (a rejected write ends it with status 500).
\<close>

theorem room_broadcast_recipients:
  assumes "initialized st" "consistent st"
    "room_scoped request validatedMessage R"
    "Map_get (roomParticipants st) R = Some roomSessions"
  shows "(storage_ok st \<longrightarrow> (\<exists>n. fst (handleBroadcast request st) = Returned (Response 200 (Recipients n))))
     \<and> (\<forall>n. fst (handleBroadcast request st) = Returned (Response 200 (Recipients n)) \<longrightarrow>
           n = length (filter (is_open st) roomSessions)
           \<and> (\<forall>S \<in> set roomSessions. is_dead st S \<longrightarrow>
                 Map_get (activeConnections (snd (handleBroadcast request st))) S = None
                 \<and> S \<notin> members (snd (handleBroadcast request st)) R))"
proof -
  let ?loop = "broadcastToRoom validatedMessage R roomSessions 0 st"
  have total: "\<exists>n. fst (handleBroadcast request st) = Returned (Response 200 (Recipients n))"
    if "storage_ok st"
    using handleBroadcast_room_ok [OF assms(1) that assms(3,4)] by simp
  have partial: "n = length (filter (is_open st) roomSessions)
           \<and> (\<forall>S \<in> set roomSessions. is_dead st S \<longrightarrow>
                 Map_get (activeConnections (snd (handleBroadcast request st))) S = None
                 \<and> S \<notin> members (snd (handleBroadcast request st)) R)"
    if ok: "fst (handleBroadcast request st) = Returned (Response 200 (Recipients n))" for n
  proof -
    from handleBroadcast_room_cases [OF assms(1,3,4)] ok
    have ret: "fst ?loop = Returned n"
      and res: "snd (handleBroadcast request st) = snd (saveState (snd ?loop))"
      by auto
    have count: "n = length (filter (is_open st) roomSessions)"
      using broadcastToRoom_returned_count [OF ret] by simp
    have reaped: "Map_get (activeConnections (snd (saveState (snd ?loop)))) S = None
        \<and> S \<notin> members (snd (saveState (snd ?loop))) R"
      if h1: "S \<in> set roomSessions" and h2: "is_dead st S" for S
    proof -
      obtain session where s: "Map_get (activeConnections st) S = Some session"
        "readyState (socket session) \<noteq> OPEN"
        using h2 by (auto simp: is_dead_def split: option.splits)
      have "S \<in> members st R" using h1 assms(4) by (simp add: members_def)
      then have "R \<in> set (rooms session)" using assms(2) s(1) by (auto simp: consistent_def)
      then show ?thesis
        using broadcastToRoom_returned_reaps [OF ret h1 s]
        by (simp add: saveState_mem members_saveState)
    qed
    show ?thesis using count reaped res by simp
  qed
  show ?thesis using total partial by blast
qed

theorem room_broadcast_recipients_witness:
  "fst (handleBroadcast (post CHAT_MESSAGE example_chat_payload) three_sessions)
     = Returned (Response 200 (Recipients 2))
   \<and> Map_get (activeConnections
         (snd (handleBroadcast (post CHAT_MESSAGE example_chat_payload) three_sessions))) ''S2'' = None
   \<and> ''S2'' \<notin> members
         (snd (handleBroadcast (post CHAT_MESSAGE example_chat_payload) three_sessions)) ''42''"
proof -
  let ?vm = "JObj [(''type'', JStr CHAT_MESSAGE), (''payload'', example_chat_payload)]"
  let ?r = "handleBroadcast (post CHAT_MESSAGE example_chat_payload) three_sessions"
  have i: "initialized three_sessions"
    by (simp add: three_sessions_def example_coordinator_def)
  have ok: "storage_ok three_sessions"
    by (simp add: storage_ok_def three_sessions_def example_coordinator_def)
  have c: "consistent three_sessions"
    unfolding consistent_def
    by (auto simp: three_sessions_def example_coordinator_def example_session_def members_def
        split: if_splits)
  have rs: "room_scoped (post CHAT_MESSAGE example_chat_payload) ?vm ''42''"
    by (simp add: room_scoped_def post_def BroadcastMessageSchema_def example_chat_payload_def
        CHAT_MESSAGE_def NOTIFICATION_DELETED_def NOTIFICATION_CLEARED_def)
  have room: "Map_get (roomParticipants three_sessions) ''42'' = Some [''S0'', ''S1'', ''S2'', ''S3'']"
    by (simp add: three_sessions_def example_coordinator_def)
  have two: "length (filter (is_open three_sessions) [''S0'', ''S1'', ''S2'', ''S3'']) = 2"
    by (simp add: is_open_def three_sessions_def example_coordinator_def example_session_def)
  have dead: "is_dead three_sessions ''S2''"
    by (simp add: is_dead_def three_sessions_def example_coordinator_def example_session_def)
  have mem: "''S2'' \<in> set [''S0'', ''S1'', ''S2'', ''S3'']" by simp
  note inst = room_broadcast_recipients [OF i c rs room]
  obtain n where n: "fst ?r = Returned (Response 200 (Recipients n))"
    using inst ok by blast
  have "n = 2" using inst n two by metis
  moreover have "Map_get (activeConnections (snd ?r)) ''S2'' = None \<and> ''S2'' \<notin> members (snd ?r) ''42''"
    using inst n dead mem by blast
  ultimately show ?thesis using n by simp
qed

section \<open>Room not found\<close>

text \<open>
  C7. A room-scoped broadcast (the stored rooms loaded) is answered with status 404,
  \<open>Room not found\<close>, exactly when the membership index has no entry for the room. When
  the entry exists and its set is empty, and the write of the state to the storage
  after the loop is not rejected, the answer is status 200 with 0 recipients.
\<close>

theorem room_not_found_iff:
  assumes "initialized st" "room_scoped request validatedMessage R"
  shows "(fst (handleBroadcast request st) = Returned (Response 404 (Text ''Room not found'')))
       = (Map_get (roomParticipants st) R = None)
     \<and> (Map_get (roomParticipants st) R = Some [] \<and> storage_ok st \<longrightarrow>
          fst (handleBroadcast request st) = Returned (Response 200 (Recipients 0)))"
proof -
  have a: "fst (handleBroadcast request st) = Returned (Response 404 (Text ''Room not found''))"
    if "Map_get (roomParticipants st) R = None"
    using that
    by (simp add: handleBroadcast_room_scoped [OF assms(2,1)] broadcastTry_room_scoped [OF assms(2)])
  have b: "fst (handleBroadcast request st) \<noteq> Returned (Response 404 (Text ''Room not found''))"
    if "Map_get (roomParticipants st) R = Some ids" for ids
    using that
    by (auto simp: handleBroadcast_room_scoped [OF assms(2,1)] broadcastTry_room_scoped [OF assms(2)]
        split: prod.splits outcome.splits)
  have c: "fst (handleBroadcast request st) = Returned (Response 200 (Recipients 0))"
    if "Map_get (roomParticipants st) R = Some []" "storage_ok st"
    using handleBroadcast_room_ok [OF assms(1) that(2) assms(2) that(1)] by simp
  show ?thesis using a b c by (cases "Map_get (roomParticipants st) R") auto
qed

theorem room_not_found_iff_witness:
  "fst (handleBroadcast (post CHAT_MESSAGE example_chat_payload) empty_room)
     = Returned (Response 200 (Recipients 0))
   \<and> fst (handleBroadcast (post CHAT_MESSAGE example_chat_payload) (example_coordinator [] [] []))
     = Returned (Response 404 (Text ''Room not found''))"
proof -
  let ?vm = "JObj [(''type'', JStr CHAT_MESSAGE), (''payload'', example_chat_payload)]"
  have rs: "room_scoped (post CHAT_MESSAGE example_chat_payload) ?vm ''42''"
    by (simp add: room_scoped_def post_def BroadcastMessageSchema_def example_chat_payload_def
        CHAT_MESSAGE_def NOTIFICATION_DELETED_def NOTIFICATION_CLEARED_def)
  have i1: "initialized empty_room"
    by (simp add: empty_room_def example_coordinator_def)
  have e: "Map_get (roomParticipants empty_room) ''42'' = Some [] \<and> storage_ok empty_room"
    by (simp add: storage_ok_def empty_room_def example_coordinator_def)
  have i2: "initialized (example_coordinator [] [] [])"
    by (simp add: example_coordinator_def)
  have n: "Map_get (roomParticipants (example_coordinator [] [] [])) ''42'' = None"
    by (simp add: example_coordinator_def)
  show ?thesis
    using room_not_found_iff [OF i1 rs] room_not_found_iff [OF i2 rs] e n by simp
qed

section \<open>A sweep of the reaper\<close>

lemma cleanupLoop_ok:
  "storage_ok st \<Longrightarrow>
     fst (cleanupLoop ks st) = Returned ()
     \<and> (\<forall>k s. Map_get (activeConnections (snd (cleanupLoop ks st))) k = Some s \<longrightarrow>
           Map_get (activeConnections st) k = Some s
           \<and> (k \<in> set ks \<longrightarrow> readyState (socket s) = OPEN))"
proof (induction ks arbitrary: st)
  case Nil
  then show ?case by simp
next
  case (Cons x ks)
  show ?case
  proof (cases "Map_get (activeConnections st) x")
    case None
    then show ?thesis using Cons.IH [OF Cons.prems] by auto
  next
    case (Some session)
    show ?thesis
    proof (cases "readyState (socket session) = OPEN")
      case True
      then show ?thesis using Some Cons.IH [OF Cons.prems] by auto
    next
      case False
      obtain st' where r: "handleSessionClose x st = (Returned (), st')"
        using handleSessionClose_ok [OF Cons.prems, of x] by (cases "handleSessionClose x st") auto
      have ok: "storage_ok st'" using handleSessionClose_ok [OF Cons.prems, of x] r by simp
      have l: "\<And>k. Map_get (activeConnections st') k =
                 (if k = x then None else Map_get (activeConnections st) k)"
        using lookup_handleSessionClose [of x st] r by simp
      have orig: "Map_get (activeConnections st) k = Some s \<and> k \<noteq> x"
        if "Map_get (activeConnections st') k = Some s" for k s
        using that l [of k] by (cases "k = x") simp_all
      have loop: "cleanupLoop (x # ks) st = cleanupLoop ks st'"
        using Some False r by simp
      show ?thesis
        unfolding loop using Cons.IH [OF ok] orig by (metis set_ConsD)
    qed
  qed
qed

lemma cleanupLoop_returned:
  "fst (cleanupLoop ks st) = Returned () \<Longrightarrow>
     (\<forall>k s. Map_get (activeConnections (snd (cleanupLoop ks st))) k = Some s \<longrightarrow>
           Map_get (activeConnections st) k = Some s
           \<and> (k \<in> set ks \<longrightarrow> readyState (socket s) = OPEN))"
proof (induction ks arbitrary: st)
  case Nil
  then show ?case by simp
next
  case (Cons x ks)
  show ?case
  proof (cases "Map_get (activeConnections st) x")
    case None
    then show ?thesis using Cons.IH [of st] Cons.prems by auto
  next
    case (Some session)
    show ?thesis
    proof (cases "readyState (socket session) = OPEN")
      case True
      then show ?thesis using Some Cons.IH [of st] Cons.prems by auto
    next
      case False
      obtain r st' where r: "handleSessionClose x st = (r, st')"
        by (cases "handleSessionClose x st")
      have rr: "r = Returned ()" using Some False r Cons.prems by (cases r) simp_all
      have loop: "cleanupLoop (x # ks) st = cleanupLoop ks st'"
        using Some False r rr by simp
      have ret: "fst (cleanupLoop ks st') = Returned ()" using Cons.prems loop by simp
      have l: "\<And>k. Map_get (activeConnections st') k =
                 (if k = x then None else Map_get (activeConnections st) k)"
        using lookup_handleSessionClose [of x st] r by simp
      have orig: "Map_get (activeConnections st) k = Some s \<and> k \<noteq> x"
        if "Map_get (activeConnections st') k = Some s" for k s
        using that l [of k] by (cases "k = x") simp_all
      show ?thesis
        unfolding loop using Cons.IH [OF ret] orig by (metis set_ConsD)
    qed
  qed
qed

lemma cleanupLoop_append:
  "cleanupLoop ks st = (Returned (), st1) \<Longrightarrow> cleanupLoop (ks @ ks') st = cleanupLoop ks' st1"
proof (induction ks arbitrary: st)
  case Nil
  then show ?case by simp
next
  case (Cons x ks)
  show ?case
  proof (cases "Map_get (activeConnections st) x")
    case None
    then show ?thesis using Cons.IH [of st] Cons.prems by simp
  next
    case (Some session)
    show ?thesis
    proof (cases "readyState (socket session) = OPEN")
      case True
      then show ?thesis using Some Cons.IH [of st] Cons.prems by simp
    next
      case False
      obtain r st' where r: "handleSessionClose x st = (r, st')"
        by (cases "handleSessionClose x st")
      have rr: "r = Returned ()" using Some False r Cons.prems by (cases r) simp_all
      show ?thesis using Some False r rr Cons.IH [of st'] Cons.prems by simp
    qed
  qed
qed

lemma cleanupLoop_at_throw:
  assumes "is_dead st1 k" "fst (handleSessionClose k st1) = Threw"
  shows "cleanupLoop (k # rest) st1 = handleSessionClose k st1"
  using assms
  by (cases "handleSessionClose k st1")
     (auto simp: is_dead_def split: option.splits outcome.splits)

lemma cleanupLoop_threw:
  "fst (cleanupLoop ks st) = Threw \<Longrightarrow>
     \<exists>pre k rest st1. ks = pre @ k # rest \<and> cleanupLoop pre st = (Returned (), st1)
        \<and> is_dead st1 k \<and> fst (handleSessionClose k st1) = Threw"
proof (induction ks arbitrary: st)
  case Nil
  then show ?case by simp
next
  case (Cons x ks)
  show ?case
  proof (cases "Map_get (activeConnections st) x")
    case None
    then have "fst (cleanupLoop ks st) = Threw" using Cons.prems by simp
    from Cons.IH [OF this] obtain pre k rest st1 where
      h: "ks = pre @ k # rest" "cleanupLoop pre st = (Returned (), st1)"
         "is_dead st1 k" "fst (handleSessionClose k st1) = Threw" by blast
    have "x # ks = (x # pre) @ k # rest" using h(1) by simp
    moreover have "cleanupLoop (x # pre) st = (Returned (), st1)" using None h(2) by simp
    ultimately show ?thesis using h(3,4) by blast
  next
    case (Some session)
    show ?thesis
    proof (cases "readyState (socket session) = OPEN")
      case True
      then have "fst (cleanupLoop ks st) = Threw" using Some Cons.prems by simp
      from Cons.IH [OF this] obtain pre k rest st1 where
        h: "ks = pre @ k # rest" "cleanupLoop pre st = (Returned (), st1)"
           "is_dead st1 k" "fst (handleSessionClose k st1) = Threw" by blast
      have "x # ks = (x # pre) @ k # rest" using h(1) by simp
      moreover have "cleanupLoop (x # pre) st = (Returned (), st1)" using Some True h(2) by simp
      ultimately show ?thesis using h(3,4) by blast
    next
      case False
      obtain r st' where r: "handleSessionClose x st = (r, st')"
        by (cases "handleSessionClose x st")
      show ?thesis
      proof (cases r)
        case Threw
        have "x # ks = [] @ x # ks" by simp
        moreover have "cleanupLoop [] st = (Returned (), st)" by simp
        moreover have "is_dead st x" using Some False by (simp add: is_dead_def)
        moreover have "fst (handleSessionClose x st) = Threw" using r Threw by simp
        ultimately show ?thesis by blast
      next
        case (Returned u)
        then have "fst (cleanupLoop ks st') = Threw" using Some False r Cons.prems by simp
        from Cons.IH [OF this] obtain pre k rest st1 where
          h: "ks = pre @ k # rest" "cleanupLoop pre st' = (Returned (), st1)"
             "is_dead st1 k" "fst (handleSessionClose k st1) = Threw" by blast
        have "x # ks = (x # pre) @ k # rest" using h(1) by simp
        moreover have "cleanupLoop (x # pre) st = (Returned (), st1)"
          using Some False r Returned h(2) by simp
        ultimately show ?thesis using h(3,4) by blast
      qed
    qed
  qed
qed

text \<open>
  C8, as the code has it. A sweep has no handler around the cleanup of a session, and
  the cleanup of a session is the only step of a sweep that can throw. So: the sweep
  returns when no storage operation is rejected; whenever the sweep returns (no cleanup
  has thrown), every session that the registry holds afterwards has an open socket,
  that is, every session that was not open has been closed. And whenever the sweep has
  gone through the keys \<open>ks\<close> without a throw, reaching the state \<open>st1\<close>, the next
  session \<open>k\<close> is not open there and \<open>handleSessionClose k\<close> throws, the sweep ends with
  that call: it throws in turn, and the sessions after \<open>k\<close> are not looked at, every
  session other than \<open>k\<close> is in the registry exactly as it was in \<open>st1\<close>. Every sweep
  that throws is of this kind.
\<close>

theorem sweep_stops_at_throw:
  "(storage_ok st \<longrightarrow> fst (cleanupStaleConnections st) = Returned ())
   \<and> (fst (cleanupStaleConnections st) = Returned () \<longrightarrow>
        (\<forall>k s. Map_get (activeConnections (snd (cleanupStaleConnections st))) k = Some s \<longrightarrow>
            readyState (socket s) = OPEN))
   \<and> (map fst (activeConnections st) = ks @ k # rest
      \<and> cleanupLoop ks st = (Returned (), st1)
      \<and> is_dead st1 k
      \<and> fst (handleSessionClose k st1) = Threw \<longrightarrow>
        cleanupStaleConnections st = handleSessionClose k st1
        \<and> (\<forall>k'. k' \<noteq> k \<longrightarrow>
              Map_get (activeConnections (snd (cleanupStaleConnections st))) k'
                = Map_get (activeConnections st1) k'))
   \<and> (fst (cleanupStaleConnections st) = Threw \<longrightarrow>
        (\<exists>ks k rest st1. map fst (activeConnections st) = ks @ k # rest
           \<and> cleanupLoop ks st = (Returned (), st1)
           \<and> is_dead st1 k
           \<and> fst (handleSessionClose k st1) = Threw))"
proof -
  have a: "fst (cleanupStaleConnections st) = Returned ()" if ok: "storage_ok st"
    using cleanupLoop_ok [OF ok, of "map fst (activeConnections st)"]
    unfolding cleanupStaleConnections_def by blast
  have b: "\<forall>k s. Map_get (activeConnections (snd (cleanupStaleConnections st))) k = Some s \<longrightarrow>
            readyState (socket s) = OPEN"
    if ret: "fst (cleanupStaleConnections st) = Returned ()"
  proof -
    have "k \<in> set (map fst (activeConnections st))"
      if "Map_get (activeConnections st) k = Some s" for k s
      using that by (metis map_of_SomeD fst_conv image_eqI set_map)
    then show ?thesis
      using cleanupLoop_returned [of "map fst (activeConnections st)" st] ret
      unfolding cleanupStaleConnections_def by blast
  qed
  have c: "cleanupStaleConnections st = handleSessionClose k st1
        \<and> (\<forall>k'. k' \<noteq> k \<longrightarrow>
              Map_get (activeConnections (snd (cleanupStaleConnections st))) k'
                = Map_get (activeConnections st1) k')"
    if keys: "map fst (activeConnections st) = ks @ k # rest"
      and pre: "cleanupLoop ks st = (Returned (), st1)"
      and dead: "is_dead st1 k"
      and threw: "fst (handleSessionClose k st1) = Threw"
  proof -
    have "cleanupStaleConnections st = cleanupLoop (k # rest) st1"
      unfolding cleanupStaleConnections_def keys by (rule cleanupLoop_append [OF pre])
    also have "\<dots> = handleSessionClose k st1"
      by (rule cleanupLoop_at_throw [OF dead threw])
    finally have eq: "cleanupStaleConnections st = handleSessionClose k st1" .
    show ?thesis unfolding eq by (simp add: lookup_handleSessionClose)
  qed
  have d: "\<exists>ks k rest st1. map fst (activeConnections st) = ks @ k # rest
           \<and> cleanupLoop ks st = (Returned (), st1)
           \<and> is_dead st1 k
           \<and> fst (handleSessionClose k st1) = Threw"
    if "fst (cleanupStaleConnections st) = Threw"
    using cleanupLoop_threw [of "map fst (activeConnections st)" st] that
    unfolding cleanupStaleConnections_def by blast
  show ?thesis using a b c d by blast
qed


theorem sweep_stops_at_throw_witness:
  "storage_ok three_sessions
   \<and> fst (cleanupStaleConnections three_sessions) = Returned ()
   \<and> fst (handleSessionClose ''A'' three_dead_sessions) = Returned ()
   \<and> cleanupStaleConnections three_dead_sessions
       = handleSessionClose ''B'' (snd (handleSessionClose ''A'' three_dead_sessions))
   \<and> fst (cleanupStaleConnections three_dead_sessions) = Threw
   \<and> Map_get (activeConnections (snd (cleanupStaleConnections three_dead_sessions))) ''C''
       = Some (example_session ''C'' CLOSED [''42''])"
proof -
  let ?st1 = "\<lparr>activeConnections =
                 [(''B'', example_session ''B'' CLOSED [''42'']),
                  (''C'', example_session ''C'' CLOSED [''42''])],
               roomParticipants = [(''42'', [''B'', ''C''])], initialized = True,
               storage = Some [(''42'', [''B'', ''C''])], storageFaults = [True]\<rparr>"
  have ok: "storage_ok three_sessions"
    by (simp add: storage_ok_def three_sessions_def example_coordinator_def)
  have a: "fst (cleanupStaleConnections three_sessions) = Returned ()"
    using sweep_stops_at_throw [of three_sessions] ok by blast
  have closeA: "handleSessionClose ''A'' three_dead_sessions = (Returned (), ?st1)"
    by (simp add: handleSessionClose_def saveState_def storage_put_def three_dead_sessions_def
        example_coordinator_def example_session_def Set_delete_def Let_def)
  have lookA: "Map_get (activeConnections three_dead_sessions) ''A''
      = Some (example_session ''A'' CLOSED [''42''])"
    by (simp add: three_dead_sessions_def example_coordinator_def)
  have deadA: "readyState (socket (example_session ''A'' CLOSED [''42''])) \<noteq> OPEN"
    by (simp add: example_session_def)
  have keys: "map fst (activeConnections three_dead_sessions) = [''A''] @ ''B'' # [''C'']"
    by (simp add: three_dead_sessions_def example_coordinator_def)
  have pre: "cleanupLoop [''A''] three_dead_sessions = (Returned (), ?st1)"
    using lookA deadA closeA by simp
  have deadB: "is_dead ?st1 ''B''"
    by (simp add: is_dead_def example_session_def)
  have threwB: "fst (handleSessionClose ''B'' ?st1) = Threw"
    by (simp add: handleSessionClose_def saveState_def storage_put_def)
  have lookC: "Map_get (activeConnections ?st1) ''C'' = Some (example_session ''C'' CLOSED [''42''])"
    by simp
  have neq: "''C'' \<noteq> ''B''" by simp
  note inst = sweep_stops_at_throw [of three_dead_sessions "[''A'']" "''B''" "[''C'']" ?st1]
  have both: "cleanupStaleConnections three_dead_sessions = handleSessionClose ''B'' ?st1
      \<and> (\<forall>k'. k' \<noteq> ''B'' \<longrightarrow>
            Map_get (activeConnections (snd (cleanupStaleConnections three_dead_sessions))) k'
              = Map_get (activeConnections ?st1) k')"
    using inst keys pre deadB threwB by blast
  have eq: "cleanupStaleConnections three_dead_sessions = handleSessionClose ''B'' ?st1"
    using both by (rule conjunct1)
  have rest: "Map_get (activeConnections (snd (cleanupStaleConnections three_dead_sessions))) ''C''
      = Map_get (activeConnections ?st1) ''C''"
    using conjunct2 [OF both, THEN spec, of "''C''"] neq by (rule mp)
  have threw: "fst (cleanupStaleConnections three_dead_sessions) = Threw"
    unfolding eq by (rule threwB)
  have sndA: "snd (handleSessionClose ''A'' three_dead_sessions) = ?st1"
    and fstA: "fst (handleSessionClose ''A'' three_dead_sessions) = Returned ()"
    using closeA by simp_all
  have c6: "Map_get (activeConnections (snd (cleanupStaleConnections three_dead_sessions))) ''C''
      = Some (example_session ''C'' CLOSED [''42''])"
    using rest lookC by (rule trans)
  show ?thesis
    unfolding sndA by (intro conjI ok a fstA eq threw c6)
qed

text \<open>
  C8, as the claim has it, fails: the cleanup of session A throws (the storage rejects
  the write), the sweep throws with it, and session B, which comes after A and is not
  open either, is still in the registry when the sweep has ended.
\<close>

theorem sweep_not_isolated:
  "is_dead two_dead_sessions ''A''
   \<and> is_dead two_dead_sessions ''B''
   \<and> fst (handleSessionClose ''A'' two_dead_sessions) = Threw
   \<and> fst (cleanupStaleConnections two_dead_sessions) = Threw
   \<and> is_dead (snd (cleanupStaleConnections two_dead_sessions)) ''B''"
  by (simp add: is_dead_def cleanupStaleConnections_def handleSessionClose_def saveState_def
      storage_put_def two_dead_sessions_def example_coordinator_def example_session_def
      Set_delete_def Let_def)

section \<open>Envelopes that the schema rejects, and tags it does not check\<close>

lemma parse_envelope:
  "parse (ZObject [(''type'', ZString), (''payload'', S)])
     (JObj [(''type'', JStr tag), (''payload'', payload)])
   = (case parse S payload of
        None \<Rightarrow> None
      | Some p \<Rightarrow> Some (JObj [(''type'', JStr tag), (''payload'', p)]))"
  by (auto split: option.splits)

text \<open>
  C2, as the code has it. The schema checks the payload against its four shapes and the
  tag only for being a string: whether it rejects an envelope does not depend on the
  tag. An envelope that it rejects (the stored rooms loaded, the request a \<open>POST\<close>) is
  answered by the catch block with status 500, \<open>Internal server error\<close>, and the state is
  the one before the call: nothing has been sent to any session.
\<close>

theorem rejected_envelope_not_delivered:
  "(initialized st \<and> http_method request = ''POST'' \<and> json_body request = Some rawMessage
      \<and> parse BroadcastMessageSchema rawMessage = None \<longrightarrow>
        handleBroadcast request st = (Returned (Response 500 (Text ''Internal server error'')), st))
   \<and> (parse BroadcastMessageSchema (JObj [(''type'', JStr tag), (''payload'', payload)]) = None
        \<longleftrightarrow> parse BroadcastMessageSchema (JObj [(''type'', JStr tag'), (''payload'', payload)]) = None)"
proof -
  have a: "handleBroadcast request st = (Returned (Response 500 (Text ''Internal server error'')), st)"
    if "initialized st" "http_method request = ''POST''" "json_body request = Some rawMessage"
      "parse BroadcastMessageSchema rawMessage = None"
    using that by (simp add: handleBroadcast_def initialize_def broadcastTry_def)
  have b: "parse BroadcastMessageSchema (JObj [(''type'', JStr tag), (''payload'', payload)]) = None
        \<longleftrightarrow> parse BroadcastMessageSchema (JObj [(''type'', JStr tag'), (''payload'', payload)]) = None"
    unfolding BroadcastMessageSchema_def parse_envelope by (simp split: option.splits)
  show ?thesis using a b by blast
qed

theorem rejected_envelope_not_delivered_witness:
  "parse BroadcastMessageSchema (JObj [(''type'', JStr ''not:a:real:tag''), (''payload'', JObj [])]) = None
   \<and> handleBroadcast (post ''not:a:real:tag'' (JObj [])) one_session
       = (Returned (Response 500 (Text ''Internal server error'')), one_session)"
proof -
  have p: "parse BroadcastMessageSchema (JObj [(''type'', JStr ''not:a:real:tag''), (''payload'', JObj [])]) = None"
    by (simp add: BroadcastMessageSchema_def)
  have i: "initialized one_session" by (simp add: one_session_def example_coordinator_def)
  have m: "http_method (post ''not:a:real:tag'' (JObj [])) = ''POST''" by (simp add: post_def)
  have b: "json_body (post ''not:a:real:tag'' (JObj []))
     = Some (JObj [(''type'', JStr ''not:a:real:tag''), (''payload'', JObj [])])"
    by (simp add: post_def)
  show ?thesis
    using rejected_envelope_not_delivered [of one_session "post ''not:a:real:tag'' (JObj [])"
        "JObj [(''type'', JStr ''not:a:real:tag''), (''payload'', JObj [])]"] p i m b
    by blast
qed

text \<open>
  C2, as the claim has it, fails. The tag \<open>not:a:real:tag\<close> is none of the recognized
  ones, yet with the payload of a chat message the envelope is taken for a room-scoped
  one: the call returns status 200 with one recipient, and session A has been sent the
  envelope. With the payload \<open>{}\<close> of the claim's example the answer is 500, not a 400.
\<close>

theorem unknown_tag_delivered:
  "fst (handleBroadcast (post ''not:a:real:tag'' example_chat_payload) one_session)
     = Returned (Response 200 (Recipients 1))
   \<and> map_option (\<lambda>s. sent (socket s))
        (Map_get (activeConnections
           (snd (handleBroadcast (post ''not:a:real:tag'' example_chat_payload) one_session))) ''A'')
     = Some [JObj [(''type'', JStr ''not:a:real:tag''), (''payload'', example_chat_payload)]]
   \<and> fst (handleBroadcast (post ''not:a:real:tag'' (JObj [])) one_session)
     = Returned (Response 500 (Text ''Internal server error''))"
  by (simp add: handleBroadcast_def broadcastTry_def initialize_def saveState_def storage_put_def
      socket_send_def BroadcastMessageSchema_def Let_def example_coordinator_def
      example_session_def one_session_def post_def example_chat_payload_def
      NOTIFICATION_DELETED_def NOTIFICATION_CLEARED_def)

section \<open>The notification that is created\<close>

text \<open>
  C3 on the code. The caller posts a \<open>notification:created\<close> envelope with the
  notification record as payload. The schema accepts it; the tag is not one of the two
  that the coordinator broadcasts to every session, the validated payload has no
  \<open>roomId\<close>, and the answer is status 400, \<open>Room ID required for this message type\<close>. The
  state is unchanged: session A, open, has been sent nothing.
\<close>

theorem notification_created_not_delivered:
  "handleBroadcast (post NOTIFICATION_CREATED example_notification) one_session
     = (Returned (Response 400 (Text ''Room ID required for this message type'')), one_session)"
  by (simp add: handleBroadcast_def broadcastTry_def initialize_def BroadcastMessageSchema_def
      Let_def example_coordinator_def example_session_def one_session_def post_def
      example_notification_def NOTIFICATION_CREATED_def NOTIFICATION_DELETED_def
      NOTIFICATION_CLEARED_def)

section \<open>Leaving a room\<close>

text \<open>
  C4 on the code. Session A is the only member of the room 42. After its \<open>room:leave\<close>
  frame the set of the room does not contain A, but the room still has an entry, with
  the empty set; \<open>handleSessionClose\<close> of A from the same state deletes the entry.
\<close>

theorem leave_keeps_empty_entry:
  "''A'' \<notin> members (snd (handleMessage ''A'' (ROOM_LEAVE (JStr ''42'')) one_session)) ''42''
   \<and> Map_get (roomParticipants (snd (handleMessage ''A'' (ROOM_LEAVE (JStr ''42'')) one_session))) ''42''
     = Some []
   \<and> Map_get (roomParticipants (snd (handleSessionClose ''A'' one_session))) ''42'' = None"
  by (simp add: members_def handleRoomLeave_def handleSessionClose_def saveState_def
      storage_put_def Set_delete_def Let_def example_coordinator_def example_session_def
      one_session_def)

section \<open>Tokens without an expiry\<close>

lemma parse_shape_lookup:
  "distinct (map fst shape) \<Longrightarrow> parse_shape shape ps = Some out \<Longrightarrow>
     (case map_of shape k of
        None \<Rightarrow> map_of out k = None
      | Some p \<Rightarrow>
          (\<exists>y. p (case map_of ps k of None \<Rightarrow> JUndefined | Some x \<Rightarrow> x) = Some y
             \<and> map_of out k = (if y = JUndefined \<and> map_of ps k = None then None else Some y)))"
proof (induction shape arbitrary: out k)
  case Nil
  then show ?case by simp
next
  case (Cons a shape)
  obtain k' p' where a: "a = (k', p')" by (cases a)
  have notin: "map_of shape k' = None"
    using Cons.prems(1) a by (simp add: map_of_eq_None_iff)
  have d: "distinct (map fst shape)" using Cons.prems(1) by simp
  obtain y out' where step: "p' (case map_of ps k' of None \<Rightarrow> JUndefined | Some x \<Rightarrow> x) = Some y"
      "parse_shape shape ps = Some out'"
      "out = (if y = JUndefined \<and> map_of ps k' = None then out' else (k', y) # out')"
    using Cons.prems(2) a by (auto split: option.splits if_splits)
  show ?case
  proof (cases "k = k'")
    case True
    have "map_of out' k' = None"
      using Cons.IH [OF d step(2), of k'] notin by simp
    then show ?thesis using True a step by simp
  next
    case False
    have eq: "map_of out k = map_of out' k" using False step(3) by simp
    have sh: "map_of (a # shape) k = map_of shape k" using False a by simp
    show ?thesis unfolding eq sh by (rule Cons.IH [OF d step(2)])
  qed
qed

lemma payloadSchema_exp:
  assumes "parse payloadSchema payload = Some validatedPayload"
  shows "get_prop validatedPayload ''exp'' = JUndefined \<and> get_prop payload ''exp'' = JUndefined
     \<or> (\<exists>e. get_prop validatedPayload ''exp'' = JNum e \<and> get_prop payload ''exp'' = JNum e)"
proof -
  obtain ps where ps: "payload = JObj ps"
    using assms by (cases payload) (simp_all add: payloadSchema_def)
  let ?shape = "map (map_prod (\<lambda>k. k) parse)
      [(''sub'', ZString), (''name'', ZOptional ZString), (''email'', ZOptional ZString),
       (''iat'', ZOptional ZNumber), (''exp'', ZOptional ZNumber), (''jti'', ZOptional ZString)]"
  obtain out where out: "parse_shape ?shape ps = Some out" "validatedPayload = JObj out"
    using assms ps by (auto simp: payloadSchema_def)
  have d: "distinct (map fst ?shape)" by simp
  have e: "map_of ?shape ''exp'' = Some (parse (ZOptional ZNumber))" by simp
  show ?thesis
    using parse_shape_lookup [OF d out(1), of "''exp''"] out(2) ps
    unfolding e
    by (cases "map_of ps ''exp''") (auto split: option.splits if_splits json.splits)
qed

text \<open>
  C10. A token of three segments whose header decodes to an object with \<open>alg\<close> HS256,
  whose payload decodes to a value that the payload schema accepts, whose signature
  verifies under the secret, and whose payload has no \<open>exp\<close> or has \<open>exp\<close> 0: \<open>decode\<close>
  returns the validated payload at every time of the clock, and \<open>verifyToken\<close> of the
  socket worker returns it too unless the subject is the empty string, which it refuses
  as a missing subject. Neither fails with an expiry error, whatever the clock reads.
\<close>

theorem token_without_exp_accepted:
  assumes "token \<noteq> []" "secret \<noteq> []"
    "split_dot token = [headerSegment, payloadSegment, signatureSegment]"
    "base64UrlDecode P headerSegment = Some headerStr"
    "JSON_parse P headerStr = Some header"
    "get_prop header ''alg'' = JStr ''HS256''"
    "base64UrlDecode P payloadSegment = Some payloadStr"
    "JSON_parse P payloadStr = Some payload"
    "parse payloadSchema payload = Some validatedPayload"
    "base64UrlDecode P signatureSegment = Some signatureData"
    "hmac_verify P secret signatureData (headerSegment @ ''.'' @ payloadSegment)"
    "get_prop payload ''exp'' = JUndefined \<or> get_prop payload ''exp'' = JNum 0"
  shows "decode P now (Some token) (Some secret) = Inr validatedPayload
     \<and> verifyToken P now1 now2 token \<lparr>JWT_SECRET = Some secret\<rparr>
         = (if falsy (get_prop validatedPayload ''sub'')
            then Inl (WebSocketAuthenticationFailed MissingSubject)
            else Inr validatedPayload)"
proof -
  have h: "header \<noteq> JNull" using assms(6) by auto
  have e: "\<And>t. \<not> expired (get_prop validatedPayload ''exp'') t"
    using payloadSchema_exp [OF assms(9)] assms(12) by auto
  have d: "\<And>t. decodeTry P t token secret = Inr validatedPayload"
    using assms h e by (simp add: decodeTry_def)
  show ?thesis
    using assms(1,2) d e by (simp add: decode_def verifyToken_def)
qed

theorem token_without_exp_accepted_witness:
  "decode example_platform 1700000000000 (Some ''h.p.s'') (Some ''secret'')
     = Inr (JObj [(''sub'', JStr ''7'')])
   \<and> verifyToken example_platform 1700000000000 1700000000001 ''h.p.s'' \<lparr>JWT_SECRET = Some ''secret''\<rparr>
     = Inr (JObj [(''sub'', JStr ''7'')])"
proof -
  let ?P = example_platform
  have t: "''h.p.s'' \<noteq> []" "''secret'' \<noteq> []" by simp_all
  have sp: "split_dot ''h.p.s'' = [''h'', ''p'', ''s'']" by simp
  have bh: "base64UrlDecode ?P ''h'' = Some ''h''"
    by (simp add: base64UrlDecode_def example_platform_def Let_def)
  have jh: "JSON_parse ?P ''h'' = Some (JObj [(''alg'', JStr ''HS256''), (''typ'', JStr ''JWT'')])"
    by (simp add: example_platform_def)
  have alg: "get_prop (JObj [(''alg'', JStr ''HS256''), (''typ'', JStr ''JWT'')]) ''alg'' = JStr ''HS256''"
    by simp
  have bp: "base64UrlDecode ?P ''p'' = Some ''p''"
    by (simp add: base64UrlDecode_def example_platform_def Let_def)
  have jp: "JSON_parse ?P ''p'' = Some (JObj [(''sub'', JStr ''7'')])"
    by (simp add: example_platform_def)
  have vp: "parse payloadSchema (JObj [(''sub'', JStr ''7'')]) = Some (JObj [(''sub'', JStr ''7'')])"
    by (simp add: payloadSchema_def)
  have bs: "base64UrlDecode ?P ''s'' = Some ''s''"
    by (simp add: base64UrlDecode_def example_platform_def Let_def)
  have sig: "hmac_verify ?P ''secret'' ''s'' (''h'' @ ''.'' @ ''p'')"
    by (simp add: example_platform_def)
  have noexp: "get_prop (JObj [(''sub'', JStr ''7'')]) ''exp'' = JUndefined
      \<or> get_prop (JObj [(''sub'', JStr ''7'')]) ''exp'' = JNum 0"
    by simp
  show ?thesis
    using token_without_exp_accepted [OF t sp bh jh alg bp jp vp bs sig noexp,
        of 1700000000000 1700000000000 1700000000001]
    by simp
qed

end
